theory Spec2Isabelle
  imports Complex_Main "HOL-Library.Word" "HOL-Library.Log_Nat"
begin

section \<open>Python values shared by the modules\<close>

text \<open>
  Exceptions are values. Every exception the modules can meet in their \<open>try\<close> blocks is a
  subclass of Python's \<open>Exception\<close>; the handlers tell
  \<open>requests.exceptions.RequestException\<close> and its subclass \<open>HTTPError\<close> from the rest, so
  the model keeps that distinction. The string is \<open>str(e)\<close>.
\<close>

datatype exn = RequestException string | HTTPError string | Exception string

text \<open>Decimal rendering of an integer, as an f-string does it.\<close>

function str_nat :: "nat \<Rightarrow> string" where
  "str_nat n = (if n < 10 then [''0123456789'' ! n]
                else str_nat (n div 10) @ [''0123456789'' ! (n mod 10)])"
  by pat_completeness auto
termination
  by (relation "measure id") auto

declare str_nat.simps [simp del]

definition str_int :: "int \<Rightarrow> string" where
  "str_int i = (if i < 0 then CHR ''-'' # str_nat (nat (- i)) else str_nat (nat i))"

text \<open>\<open>needle in haystack\<close> on strings: a contiguous occurrence.\<close>

fun starts_with :: "string \<Rightarrow> string \<Rightarrow> bool" where
  "starts_with [] s = True"
| "starts_with (c # cs) [] = False"
| "starts_with (c # cs) (d # ds) = (c = d \<and> starts_with cs ds)"

fun str_contains :: "string \<Rightarrow> string \<Rightarrow> bool" where
  "str_contains needle [] = (needle = [])"
| "str_contains needle (d # ds) = (starts_with needle (d # ds) \<or> str_contains needle ds)"

section \<open>Images (Pillow)\<close>

text \<open>
  A Pillow image: its mode, its size and its pixel store. The imaging core keeps four
  bytes for every pixel of a multi-band image; a pixel is read at a column and a row.
\<close>

datatype mode = RGBA | RGB | L | LA | RGBa | Mode1 | OtherMode string

record pixel =
  red :: "8 word"
  green :: "8 word"
  blue :: "8 word"
  alpha :: "8 word"

record image =
  mode :: mode
  width :: nat
  height :: nat
  getpixel :: "int \<Rightarrow> int \<Rightarrow> pixel"

section \<open>logic\_image\_gen.py: generate\_background\<close>

text \<open>The JSON document a response carries, as \<open>response.json()\<close> decodes it.\<close>

datatype json =
    JNull
  | JBool bool
  | JNum rat
  | JStr string
  | JArr "json list"
  | JObj "(string \<times> json) list"

text \<open>
  A decoded object is a Python dict: of two members with one key the later one stays.
\<close>

definition dict_get :: "(string \<times> json) list \<Rightarrow> string \<Rightarrow> json option" where
  "dict_get kvs k = map_of (rev kvs) k"

text \<open>\<open>key in value\<close>, \<open>value[key]\<close>, \<open>value[0]\<close> and \<open>len(value)\<close> on decoded JSON. What Python
  rejects with a TypeError, KeyError or IndexError is an exception here. The text of a
  KeyError is the \<open>repr\<close> of the key: the key between two apostrophes, for the keys of the
  module, which hold no quote and need no escape. The text of a TypeError names the type
  at hand and changes with the version of Python; it is abridged.\<close>

definition py_repr :: "string \<Rightarrow> string" where
  "py_repr k = CHR 0x27 # k @ [CHR 0x27]"

fun py_in :: "string \<Rightarrow> json \<Rightarrow> exn + bool" where
  "py_in k (JObj kvs) = Inr (dict_get kvs k \<noteq> None)"
| "py_in k (JArr xs) = Inr (JStr k \<in> set xs)"
| "py_in k (JStr s) = Inr (str_contains k s)"
| "py_in k v = Inl (Exception ''argument is not iterable'')"

fun py_getitem :: "json \<Rightarrow> string \<Rightarrow> exn + json" where
  "py_getitem (JObj kvs) k =
     (case dict_get kvs k of None \<Rightarrow> Inl (Exception (py_repr k)) | Some v \<Rightarrow> Inr v)"
| "py_getitem v k = Inl (Exception ''indices must be integers'')"

fun py_getitem0 :: "json \<Rightarrow> exn + json" where
  "py_getitem0 (JArr []) = Inl (Exception ''list index out of range'')"
| "py_getitem0 (JArr (x # xs)) = Inr x"
| "py_getitem0 (JStr []) = Inl (Exception ''string index out of range'')"
| "py_getitem0 (JStr (c # cs)) = Inr (JStr [c])"
| "py_getitem0 (JObj kvs) = Inl (Exception ''0'')"
| "py_getitem0 v = Inl (Exception ''object is not subscriptable'')"

fun py_len :: "json \<Rightarrow> exn + nat" where
  "py_len (JArr xs) = Inr (length xs)"
| "py_len (JStr s) = Inr (length s)"
| "py_len (JObj kvs) = Inr (card (fst ` set kvs))"
| "py_len v = Inl (Exception ''object has no len()'')"

record response =
  status_code :: int
  text_body :: string
  json_body :: "exn + json"

text \<open>
  What lies outside the module: the environment variable read at import, whether building
  and serialising the base image (lines 70 to 75) raises, what \<open>requests.post\<close> does with
  the prompt, what \<open>base64.b64decode\<close> and \<open>Image.open\<close> make of the artifact, and how an
  f-string renders a decoded JSON value.
\<close>

record gen_env =
  STABILITY_API_KEY :: "string option"
  base_image_upload :: "int \<Rightarrow> int \<Rightarrow> exn option"
  requests_post :: "string \<Rightarrow> exn + response"
  open_artifact :: "json \<Rightarrow> exn + image"
  format_json :: "json \<Rightarrow> string"

type_synonym bg_result = "image option \<times> string option"

text \<open>Lines 126 to 133: the message of any other status. The inner \<open>try\<close> has a bare
  \<open>except\<close>, so a failure while reading the JSON body leaves \<open>response.text\<close>.\<close>

definition api_error_text :: "gen_env \<Rightarrow> response \<Rightarrow> string" where
  "api_error_text env resp =
     (case json_body resp of
        Inl e \<Rightarrow> text_body resp
      | Inr error_json \<Rightarrow>
          (case py_in ''message'' error_json of
             Inl e \<Rightarrow> text_body resp
           | Inr False \<Rightarrow> text_body resp
           | Inr True \<Rightarrow>
               (case py_getitem error_json ''message'' of
                  Inl e \<Rightarrow> text_body resp
                | Inr m \<Rightarrow> format_json env m)))"

text \<open>Lines 104 to 113: a response with status 200.\<close>

definition read_artifacts :: "gen_env \<Rightarrow> response \<Rightarrow> exn + bg_result" where
  "read_artifacts env resp =
     (case json_body resp of
        Inl e \<Rightarrow> Inl e
      | Inr result \<Rightarrow>
          (case py_in ''artifacts'' result of
             Inl e \<Rightarrow> Inl e
           | Inr False \<Rightarrow> Inr (None, Some ''No artifacts in API response'')
           | Inr True \<Rightarrow>
               (case py_getitem result ''artifacts'' of
                  Inl e \<Rightarrow> Inl e
                | Inr arts \<Rightarrow>
                    (case py_len arts of
                       Inl e \<Rightarrow> Inl e
                     | Inr n \<Rightarrow>
                         if n > 0 then
                           (case py_getitem0 arts of
                              Inl e \<Rightarrow> Inl e
                            | Inr art \<Rightarrow>
                                (case py_getitem art ''base64'' of
                                   Inl e \<Rightarrow> Inl e
                                 | Inr image_data \<Rightarrow>
                                     (case open_artifact env image_data of
                                        Inl e \<Rightarrow> Inl e
                                      | Inr img \<Rightarrow> Inr (Some img, None))))
                         else Inr (None, Some ''No artifacts in API response'')))))"

text \<open>Lines 103 to 133: the dispatch on the status code.\<close>

definition handle_response :: "gen_env \<Rightarrow> response \<Rightarrow> exn + bg_result" where
  "handle_response env resp =
     (if status_code resp = 200 then read_artifacts env resp
      else if status_code resp = 402 then
        Inr (None, Some ''Stable Diffusion 3.5 Medium model is not accessible. Your credits may have ended. Please check your Stability AI account balance.'')
      else if status_code resp = 401 then
        Inr (None, Some ''Invalid API key. Please check your STABILITY_API_KEY in the .env file.'')
      else if status_code resp = 429 then
        Inr (None, Some ''Rate limit exceeded. Please wait a moment and try again.'')
      else
        Inr (None, Some (''API Error ('' @ str_int (status_code resp) @ ''): ''
                          @ api_error_text env resp)))"

text \<open>Lines 68 to 133: the body of the \<open>try\<close>.\<close>

definition try_generate :: "gen_env \<Rightarrow> string \<Rightarrow> int \<Rightarrow> int \<Rightarrow> exn + bg_result" where
  "try_generate env prompt w h =
     (case base_image_upload env w h of
        Some e \<Rightarrow> Inl e
      | None \<Rightarrow>
          (case requests_post env prompt of
             Inl e \<Rightarrow> Inl e
           | Inr resp \<Rightarrow> handle_response env resp))"

text \<open>Lines 135 to 138: the messages of the two handlers.\<close>

fun except_text :: "exn \<Rightarrow> string" where
  "except_text (RequestException m) = ''Network error: '' @ m"
| "except_text (HTTPError m) = ''Network error: '' @ m"
| "except_text (Exception m) = ''Error generating background: '' @ m"

text \<open>Lines 48 to 138.\<close>

definition generate_background :: "gen_env \<Rightarrow> string \<Rightarrow> int \<Rightarrow> int \<Rightarrow> bg_result" where
  "generate_background env prompt w h =
     (if STABILITY_API_KEY env = None \<or> STABILITY_API_KEY env = Some [] then
        (None, Some ''STABILITY_API_KEY not found in environment variables'')
      else
        (case try_generate env prompt w h of
           Inr res \<Rightarrow> res
         | Inl e \<Rightarrow> (None, Some (except_text e))))"

section \<open>app.py: the generation run\<close>

text \<open>
  Strings are byte strings; \<open>str.lower\<close> and \<open>str.strip\<close> act on the ASCII letters and the
  ASCII white space, and leave every other byte as it is. So the model is that of the code
  on ASCII text: on other text Python's \<open>str.strip\<close> and the classes \<open>\d\<close> and \<open>\s\<close> of its
  regular expressions also take the white space and the digits beyond ASCII, and \<open>len\<close>
  counts code points where the model counts bytes.
\<close>

definition lower_char :: "char \<Rightarrow> char" where
  "lower_char c =
     (let n = (of_char c :: nat) in if 65 \<le> n \<and> n \<le> 90 then char_of (n + 32) else c)"

definition str_lower :: "string \<Rightarrow> string" where
  "str_lower s = map lower_char s"

definition is_space :: "char \<Rightarrow> bool" where
  "is_space c =
     (let n = (of_char c :: nat) in n = 32 \<or> (9 \<le> n \<and> n \<le> 13) \<or> (28 \<le> n \<and> n \<le> 31))"

definition str_strip :: "string \<Rightarrow> string" where
  "str_strip s = rev (dropWhile is_space (rev (dropWhile is_space s)))"

text \<open>Line 166: the test that makes a failed background fatal for the run.\<close>

definition is_credits_error :: "string \<Rightarrow> bool" where
  "is_credits_error error_message =
     (str_contains ''credits'' (str_lower error_message) \<or>
      str_contains ''not accessible'' (str_lower error_message))"

text \<open>
  The effects of a run that can be observed: the messages it shows (without their leading
  pictograph), the texts of its status line, the download it offers with the members of
  the archive, and its calls of the background generator. Updates of the progress bar are
  not recorded.
\<close>

datatype event =
    Sidebar_error string
  | Status string
  | St_error string
  | St_exception string
  | St_warning string
  | St_success string
  | St_image string
  | St_caption string
  | Download_button string "(string \<times> string) list"
  | Call_generate_background nat string

record composite_data =
  comp_image :: image
  caption :: string
  variation_num :: nat

record loop_state =
  composites :: "composite_data list"
  failed_generations :: "nat list"
  trace :: "event list"

text \<open>
  \<open>st.stop()\<close> raises Streamlit's \<open>StopException\<close>. It derives from \<open>BaseException\<close>, not
  from \<open>Exception\<close>, so neither \<open>except Exception\<close> of the script catches it: the run ends.
\<close>

datatype 'a flow = Stop 'a | Done 'a

text \<open>
  The surroundings of the script: the form, the environment variables, the decoder of the
  uploads, the two text collaborators, the world each call of the background generator
  meets, the compositor and the PNG encoder.
\<close>

record app_env =
  product_image_file :: "string option"
  logo_image_file :: "string option"
  product_description :: string
  num_variations :: nat
  getenv :: "string \<Rightarrow> string option"
  image_open :: "string \<Rightarrow> exn + image"
  convert_rgba :: "image \<Rightarrow> exn + image"
  prompts_for :: "string \<Rightarrow> nat \<Rightarrow> string list"
  captions_for :: "string \<Rightarrow> nat \<Rightarrow> string list"
  gen_env_at :: "nat \<Rightarrow> gen_env"
  compositor :: "image \<Rightarrow> image \<Rightarrow> image \<Rightarrow> exn + image"
  save_png :: "image \<Rightarrow> exn + string"

text \<open>Line 181: \<open>captions[i] if i < len(captions) else captions[-1]\<close>.\<close>

definition caption_for :: "string list \<Rightarrow> nat \<Rightarrow> exn + string" where
  "caption_for captions i =
     (if i < length captions then Inr (captions ! i)
      else if captions = [] then Inl (Exception ''list index out of range'')
      else Inr (last captions))"

text \<open>Lines 175 to 186: the rest of the \<open>try\<close> once a background is there.\<close>

definition make_variation ::
  "app_env \<Rightarrow> image \<Rightarrow> image \<Rightarrow> string list \<Rightarrow> nat \<Rightarrow> image \<Rightarrow> exn + composite_data" where
  "make_variation env product_image logo_image captions i background =
     (case compositor env background product_image logo_image of
        Inl e \<Rightarrow> Inl e
      | Inr composite \<Rightarrow>
          (case caption_for captions i of
             Inl e \<Rightarrow> Inl e
           | Inr c \<Rightarrow>
               Inr \<lparr>comp_image = composite, caption = c, variation_num = i + 1\<rparr>))"

definition str_of_exn :: "exn \<Rightarrow> string" where
  "str_of_exn e = (case e of RequestException m \<Rightarrow> m | HTTPError m \<Rightarrow> m | Exception m \<Rightarrow> m)"

text \<open>Lines 153 to 191: one turn of the loop, for the pair \<open>(i, prompt)\<close> of \<open>enumerate\<close>;
  \<open>n\<close> is \<open>len(prompts)\<close>.\<close>

definition variation_step ::
  "app_env \<Rightarrow> image \<Rightarrow> image \<Rightarrow> string list \<Rightarrow> nat \<Rightarrow> nat \<times> string \<Rightarrow> loop_state
     \<Rightarrow> loop_state flow"
  where
  "variation_step env product_image logo_image captions n ip s =
     (let i = fst ip; prompt = snd ip;
          s1 = s\<lparr>trace := trace s @
                 [Status (''Generating variation '' @ str_nat (i + 1) @ ''/'' @ str_nat n
                           @ ''...''),
                  Call_generate_background i prompt]\<rparr>
      in case generate_background (gen_env_at env i) prompt 1024 1024 of
           (None, error_message) \<Rightarrow>
             (let s2 = s1\<lparr>failed_generations := failed_generations s1 @ [i + 1]\<rparr>;
                  skipping = St_warning (''Failed to generate background for variation ''
                                          @ str_nat (i + 1) @ ''. Skipping...'')
              in case error_message of
                   None \<Rightarrow> Done (s2\<lparr>trace := trace s2 @ [skipping]\<rparr>)
                 | Some m \<Rightarrow>
                     if m = [] then Done (s2\<lparr>trace := trace s2 @ [skipping]\<rparr>)
                     else if is_credits_error m then
                       Stop (s2\<lparr>trace := trace s2 @ [St_error m]\<rparr>)
                     else
                       Done (s2\<lparr>trace := trace s2 @
                         [St_warning (''Variation '' @ str_nat (i + 1) @ '': '' @ m)]\<rparr>))
         | (Some background, error_message) \<Rightarrow>
             (case make_variation env product_image logo_image captions i background of
                Inr cd \<Rightarrow> Done (s1\<lparr>composites := composites s1 @ [cd]\<rparr>)
              | Inl e \<Rightarrow>
                  Done (s1\<lparr>trace := trace s1 @
                          [St_warning (''Error generating variation '' @ str_nat (i + 1)
                                        @ '': '' @ str_of_exn e)],
                        failed_generations := failed_generations s1 @ [i + 1]\<rparr>)))"

text \<open>Lines 152 to 191: the loop over \<open>enumerate(prompts)\<close>.\<close>

fun variation_loop ::
  "app_env \<Rightarrow> image \<Rightarrow> image \<Rightarrow> string list \<Rightarrow> nat \<Rightarrow> (nat \<times> string) list \<Rightarrow> loop_state
     \<Rightarrow> loop_state flow" where
  "variation_loop env product_image logo_image captions n [] s = Done s"
| "variation_loop env product_image logo_image captions n (ip # rest) s =
     (case variation_step env product_image logo_image captions n ip s of
        Stop s' \<Rightarrow> Stop s'
      | Done s' \<Rightarrow> variation_loop env product_image logo_image captions n rest s')"

definition enumerate :: "'a list \<Rightarrow> (nat \<times> 'a) list" where
  "enumerate xs = zip [0..<length xs] xs"

text \<open>Lines 86 to 105: the checks before any work; the first that fails stops the run.\<close>

definition validate :: "app_env \<Rightarrow> string option" where
  "validate env =
     (if product_image_file env = None then Some ''Please upload a product image''
      else if logo_image_file env = None then Some ''Please upload a logo image''
      else if product_description env = [] \<or>
              length (str_strip (product_description env)) < 10 then
        Some ''Please provide a detailed product description (at least 10 characters)''
      else if getenv env ''GEMINI_API_KEY'' = None \<or> getenv env ''GEMINI_API_KEY'' = Some []
      then Some ''GEMINI_API_KEY not found. Please set it in your .env file''
      else if getenv env ''STABILITY_API_KEY'' = None \<or>
              getenv env ''STABILITY_API_KEY'' = Some []
      then Some ''STABILITY_API_KEY not found. Please set it in your .env file''
      else None)"

text \<open>Lines 116 to 123: both uploads decoded and brought to RGBA.\<close>

definition ensure_rgba :: "app_env \<Rightarrow> image \<Rightarrow> exn + image" where
  "ensure_rgba env img = (if mode img \<noteq> RGBA then convert_rgba env img else Inr img)"

definition load_images :: "app_env \<Rightarrow> string \<Rightarrow> string \<Rightarrow> exn + image \<times> image" where
  "load_images env product_file logo_file =
     (case image_open env product_file of
        Inl e \<Rightarrow> Inl e
      | Inr product_image \<Rightarrow>
          (case image_open env logo_file of
             Inl e \<Rightarrow> Inl e
           | Inr logo_image \<Rightarrow>
               (case ensure_rgba env product_image of
                  Inl e \<Rightarrow> Inl e
                | Inr product_rgba \<Rightarrow>
                    (case ensure_rgba env logo_image of
                       Inl e \<Rightarrow> Inl e
                     | Inr logo_rgba \<Rightarrow> Inr (product_rgba, logo_rgba)))))"

text \<open>Lines 209 to 221: the grid, two columns to a row.\<close>

definition show_composite :: "composite_data \<Rightarrow> event list" where
  "show_composite cd =
     [St_image (''Variation '' @ str_nat (variation_num cd) @ '': '' @ take 50 (caption cd)
                 @ ''...''),
      St_caption (caption cd)]"

definition show_grid :: "composite_data list \<Rightarrow> event list" where
  "show_grid cds =
     concat (map (\<lambda>idx.
        concat (map (\<lambda>col_idx.
           if idx + col_idx < length cds then show_composite (cds ! (idx + col_idx)) else [])
         [0, 1]))
      (filter even [0..<length cds]))"

text \<open>Lines 226 to 242: the members of the archive, one PNG for each composite and then
  the captions.\<close>

fun zip_images :: "app_env \<Rightarrow> composite_data list \<Rightarrow> exn + (string \<times> string) list" where
  "zip_images env [] = Inr []"
| "zip_images env (cd # cds) =
     (case save_png env (comp_image cd) of
        Inl e \<Rightarrow> Inl e
      | Inr bytes \<Rightarrow>
          (case zip_images env cds of
             Inl e \<Rightarrow> Inl e
           | Inr members \<Rightarrow>
               Inr ((''ad_variation_'' @ str_nat (variation_num cd) @ ''.png'', bytes)
                     # members)))"

fun str_join :: "string \<Rightarrow> string list \<Rightarrow> string" where
  "str_join sep [] = []"
| "str_join sep [x] = x"
| "str_join sep (x # y # ys) = x @ sep @ str_join sep (y # ys)"

definition newline :: char where
  "newline = CHR 0x0A"

definition captions_text :: "composite_data list \<Rightarrow> string" where
  "captions_text cds =
     str_join [newline, newline]
       (map (\<lambda>comp. ''Variation '' @ str_nat (variation_num comp) @ '':'' @ [newline]
                     @ caption comp) cds)"

definition build_zip :: "app_env \<Rightarrow> composite_data list \<Rightarrow> exn + (string \<times> string) list" where
  "build_zip env cds =
     (case zip_images env cds of
        Inl e \<Rightarrow> Inl e
      | Inr members \<Rightarrow> Inr (members @ [(''captions.txt'', captions_text cds)]))"

text \<open>How a run ends: stopped by \<open>st.stop()\<close>, in the handler of line 258, or after the
  download button. Each carries the trace of the run.\<close>

datatype run_result = Stopped "event list" | Crashed "event list" | Completed "event list"

fun events_of :: "run_result \<Rightarrow> event list" where
  "events_of (Stopped tr) = tr"
| "events_of (Crashed tr) = tr"
| "events_of (Completed tr) = tr"

definition crash :: "event list \<Rightarrow> exn \<Rightarrow> run_result" where
  "crash tr e =
     Crashed (tr @ [St_error (''An error occurred: '' @ str_of_exn e), St_exception (str_of_exn e)])"

definition str_list :: "nat list \<Rightarrow> string" where
  "str_list ns = ''['' @ str_join '', '' (map str_nat ns) @ '']''"

text \<open>Lines 193 to 256: what follows the loop.\<close>

definition after_loop :: "app_env \<Rightarrow> loop_state \<Rightarrow> run_result" where
  "after_loop env s =
     (let tr1 = trace s @ [Status ''Generation complete!'']
      in if composites s = [] then
           Stopped (tr1 @ [St_error
             ''Failed to generate any variations. Please check your API keys and try again.''])
         else
           (let tr2 = tr1 @ [St_success (''Successfully generated ''
                                @ str_nat (length (composites s)) @ '' ad variations!'')];
                tr3 = (if failed_generations s \<noteq> [] then
                         tr2 @ [St_warning (''Note: '' @ str_nat (length (failed_generations s))
                                  @ '' variation(s) failed to generate: ''
                                  @ str_list (failed_generations s))]
                       else tr2);
                tr4 = tr3 @ show_grid (composites s)
                          @ [Status ''Packaging files for download...'']
            in case build_zip env (composites s) of
                 Inl e \<Rightarrow> crash tr4 e
               | Inr members \<Rightarrow>
                   Completed (tr4 @ [Download_button
                     (''Download All Variations ('' @ str_nat (length (composites s))
                        @ '' images + captions)'') members])))"

text \<open>Lines 111 to 260: the \<open>try\<close> of the script with its handler.\<close>

definition generate_campaign :: "app_env \<Rightarrow> string \<Rightarrow> string \<Rightarrow> run_result" where
  "generate_campaign env product_file logo_file =
     (let tr0 = [Status ''Loading images...'']
      in case load_images env product_file logo_file of
           Inl e \<Rightarrow> crash tr0 e
         | Inr (product_image, logo_image) \<Rightarrow>
             (let tr1 = tr0 @ [Status ''Generating creative prompts with AI...''];
                  prompts = prompts_for env (product_description env) (num_variations env)
              in if prompts = [] then
                   Stopped (tr1 @ [St_error ''Failed to generate prompts. Please try again.''])
                 else
                   (let tr2 = tr1 @ [Status ''Generating ad captions...''];
                        captions = captions_for env (product_description env) (num_variations env)
                    in if captions = [] then
                         Stopped (tr2 @
                           [St_error ''Failed to generate captions. Please try again.''])
                       else
                         (let tr3 = tr2 @
                                [Status ''Generating backgrounds and creating composites...'']
                          in case variation_loop env product_image logo_image captions
                                    (length prompts) (enumerate prompts)
                                    \<lparr>composites = [], failed_generations = [], trace = tr3\<rparr> of
                               Stop s \<Rightarrow> Stopped (trace s)
                             | Done s \<Rightarrow> after_loop env s))))"

text \<open>Lines 84 to 260: a press of the button.\<close>

definition run :: "app_env \<Rightarrow> run_result" where
  "run env =
     (case validate env of
        Some msg \<Rightarrow> Stopped [Sidebar_error msg]
      | None \<Rightarrow>
          (case (product_image_file env, logo_image_file env) of
             (Some product_file, Some logo_file) \<Rightarrow> generate_campaign env product_file logo_file
           | _ \<Rightarrow> Stopped []))"

text \<open>The variations whose background was asked for, read off the trace.\<close>

fun calls :: "event list \<Rightarrow> nat list" where
  "calls [] = []"
| "calls (Call_generate_background i p # es) = i # calls es"
| "calls (e # es) = calls es"

text \<open>
  For a pair \<open>(i, prompt)\<close> of the loop: the background generator fails with a message that
  line 166 takes for exhausted credits; the variation is made (a background comes back and
  the rest of the \<open>try\<close> raises nothing).
\<close>

definition fatal_at :: "app_env \<Rightarrow> nat \<times> string \<Rightarrow> bool" where
  "fatal_at env ip =
     (case generate_background (gen_env_at env (fst ip)) (snd ip) 1024 1024 of
        (None, Some m) \<Rightarrow> m \<noteq> [] \<and> is_credits_error m
      | _ \<Rightarrow> False)"

definition succeeds_at ::
  "app_env \<Rightarrow> image \<Rightarrow> image \<Rightarrow> string list \<Rightarrow> nat \<times> string \<Rightarrow> bool" where
  "succeeds_at env product_image logo_image captions ip =
     (case generate_background (gen_env_at env (fst ip)) (snd ip) 1024 1024 of
        (Some background, _) \<Rightarrow>
          (case make_variation env product_image logo_image captions (fst ip) background of
             Inr cd \<Rightarrow> True
           | Inl e \<Rightarrow> False)
      | _ \<Rightarrow> False)"

definition bg_shape_ok :: "bg_result \<Rightarrow> bool" where
  "bg_shape_ok res =
     (case res of
        (Some img, None) \<Rightarrow> True
      | (None, Some message) \<Rightarrow> message \<noteq> []
      | (Some img, Some message) \<Rightarrow> False
      | (None, None) \<Rightarrow> False)"

text \<open>
  The pairs the loop reaches: those before the first pair with a fatal failure, and that pair.
\<close>

definition attempted :: "app_env \<Rightarrow> (nat \<times> string) list \<Rightarrow> (nat \<times> string) list" where
  "attempted env ips =
     take (Suc (length (takeWhile (\<lambda>ip. \<not> fatal_at env ip) ips))) ips"

text \<open>What a trace shows: a report of failure as its last event, the status line of the
  packaging step (line 224), an offered archive.\<close>

fun is_failure_report :: "event \<Rightarrow> bool" where
  "is_failure_report (St_error m) = True"
| "is_failure_report (St_exception m) = True"
| "is_failure_report (Sidebar_error m) = True"
| "is_failure_report e = False"

definition reports_failure :: "event list \<Rightarrow> bool" where
  "reports_failure tr = (tr \<noteq> [] \<and> is_failure_report (last tr))"

fun is_download :: "event \<Rightarrow> bool" where
  "is_download (Download_button label members) = True"
| "is_download e = False"

definition archive_offered :: "event list \<Rightarrow> bool" where
  "archive_offered tr = list_ex is_download tr"

definition packaging_reached :: "event list \<Rightarrow> bool" where
  "packaging_reached tr = (Status ''Packaging files for download...'' \<in> set tr)"

text \<open>The calls of the background generator a run makes once the checks have passed and
  the uploads are decoded: one for each prompt.\<close>

definition background_calls :: "app_env \<Rightarrow> (nat \<times> string) list" where
  "background_calls env =
     enumerate (prompts_for env (product_description env) (num_variations env))"

definition background_fails :: "app_env \<Rightarrow> nat \<times> string \<Rightarrow> bool" where
  "background_fails env ip =
     (fst (generate_background (gen_env_at env (fst ip)) (snd ip) 1024 1024) = None)"

subsection \<open>Sample surroundings\<close>

definition demo_image :: image where
  "demo_image = \<lparr>mode = RGBA, width = 1, height = 1,
                  getpixel = (\<lambda>x y. \<lparr>red = 0, green = 0, blue = 0, alpha = 255\<rparr>)\<rparr>"

text \<open>A world in which the service answers every request with the given status; with 200
  it sends one artifact.\<close>

definition demo_gen_env :: "int \<Rightarrow> gen_env" where
  "demo_gen_env status =
     \<lparr>STABILITY_API_KEY = Some ''key'',
      base_image_upload = (\<lambda>w h. None),
      requests_post = (\<lambda>prompt. Inr
        \<lparr>status_code = status, text_body = ''body'',
         json_body = Inr (JObj [(''artifacts'', JArr [JObj [(''base64'', JStr ''AAAA'')]])])\<rparr>),
      open_artifact = (\<lambda>j. Inr demo_image),
      format_json = (\<lambda>j. ''json'')\<rparr>"

text \<open>The same world without the key, without the network, and with a service that answers
  every request with status 200 and the given document.\<close>

definition demo_gen_env_no_key :: gen_env where
  "demo_gen_env_no_key = (demo_gen_env 200)\<lparr>STABILITY_API_KEY := None\<rparr>"

definition demo_gen_env_offline :: gen_env where
  "demo_gen_env_offline =
     (demo_gen_env 200)\<lparr>requests_post :=
        (\<lambda>prompt. Inl (RequestException ''connection refused''))\<rparr>"

definition demo_gen_env_answer :: "json \<Rightarrow> gen_env" where
  "demo_gen_env_answer body =
     (demo_gen_env 200)\<lparr>requests_post :=
        (\<lambda>prompt. Inr \<lparr>status_code = 200, text_body = ''body'', json_body = Inr body\<rparr>)\<rparr>"

text \<open>A run of three variations; the service answers each call with the status the given
  function chooses.\<close>

definition demo_app_env :: "(nat \<Rightarrow> int) \<Rightarrow> app_env" where
  "demo_app_env status_at =
     \<lparr>product_image_file = Some ''product.png'',
      logo_image_file = Some ''logo.png'',
      product_description = ''a red mountain bike'',
      num_variations = 3,
      getenv = (\<lambda>name. Some ''key''),
      image_open = (\<lambda>file. Inr demo_image),
      convert_rgba = (\<lambda>img. Inr img),
      prompts_for = (\<lambda>d n. [''a'', ''b'', ''c'']),
      captions_for = (\<lambda>d n. [''x'', ''y'', ''z'']),
      gen_env_at = (\<lambda>i. demo_gen_env (status_at i)),
      compositor = (\<lambda>background product logo. Inr background),
      save_png = (\<lambda>img. Inr ''png'')\<rparr>"

definition demo_state :: loop_state where
  "demo_state = \<lparr>composites = [], failed_generations = [], trace = []\<rparr>"

definition demo_done_state :: loop_state where
  "demo_done_state =
     \<lparr>composites = [\<lparr>comp_image = demo_image, caption = ''x'', variation_num = 1\<rparr>],
      failed_generations = [2], trace = []\<rparr>"

text \<open>Four calls that meet the statuses 200, 429, 402 and 200.\<close>

definition demo_status :: "nat \<Rightarrow> int" where
  "demo_status i = (if i = 0 then 200 else if i = 1 then 429 else if i = 2 then 402 else 200)"

section \<open>logic\_text.py: generate\_prompts\<close>

text \<open>\<open>dict.get\<close> with a default, truth, and \<open>str.strip\<close> on decoded JSON; an attribute that
  the value does not have is an AttributeError.\<close>

fun py_get :: "json \<Rightarrow> string \<Rightarrow> json \<Rightarrow> exn + json" where
  "py_get (JObj kvs) k d = (case dict_get kvs k of None \<Rightarrow> Inr d | Some v \<Rightarrow> Inr v)"
| "py_get v k d = Inl (Exception ''object has no attribute get'')"

fun py_truthy :: "json \<Rightarrow> bool" where
  "py_truthy JNull = False"
| "py_truthy (JBool t) = t"
| "py_truthy (JNum q) = (q \<noteq> 0)"
| "py_truthy (JStr s) = (s \<noteq> [])"
| "py_truthy (JArr xs) = (xs \<noteq> [])"
| "py_truthy (JObj kvs) = (kvs \<noteq> [])"

fun py_strip :: "json \<Rightarrow> exn + string" where
  "py_strip (JStr s) = Inr (str_strip s)"
| "py_strip v = Inl (Exception ''object has no attribute strip'')"

text \<open>
  What lies outside the module: the environment variable read at import and what
  \<open>requests.post\<close> does with the payload built from the prompt. The listing of the models
  (lines 34 to 42) only prints, inside a \<open>try\<close> of its own, and is left out.
\<close>

record text_env =
  GEMINI_API_KEY :: "string option"
  gemini_post :: "string \<Rightarrow> exn + response"

text \<open>Lines 53 to 70: the body of the \<open>try\<close> of \_call\_gemini. \<open>raise_for_status\<close> raises an
  HTTPError for a status from 400 to 599; its string here is the status code and the text
  of the response, which is what the handler of line 73 reads.\<close>

definition first_candidate :: "json \<Rightarrow> exn + json" where
  "first_candidate data =
     (case py_in ''candidates'' data of
        Inl e \<Rightarrow> Inl e
      | Inr False \<Rightarrow> Inl (Exception ''No candidates returned from Gemini API'')
      | Inr True \<Rightarrow>
          (case py_getitem data ''candidates'' of
             Inl e \<Rightarrow> Inl e
           | Inr candidates \<Rightarrow>
               (case py_len candidates of
                  Inl e \<Rightarrow> Inl e
                | Inr n \<Rightarrow>
                    if n = 0 then Inl (Exception ''No candidates returned from Gemini API'')
                    else py_getitem0 candidates)))"

definition candidate_text :: "json \<Rightarrow> exn + string" where
  "candidate_text candidate =
     (case py_get candidate ''content'' (JObj []) of
        Inl e \<Rightarrow> Inl e
      | Inr content \<Rightarrow>
          (case py_get content ''parts'' (JArr []) of
             Inl e \<Rightarrow> Inl e
           | Inr parts \<Rightarrow>
               if \<not> py_truthy parts then Inl (Exception ''No content parts in Gemini response'')
               else
                 (case py_getitem0 parts of
                    Inl e \<Rightarrow> Inl e
                  | Inr part \<Rightarrow>
                      (case py_get part ''text'' (JStr []) of
                         Inl e \<Rightarrow> Inl e
                       | Inr t \<Rightarrow> py_strip t))))"

definition gemini_try :: "text_env \<Rightarrow> string \<Rightarrow> exn + string" where
  "gemini_try env prompt =
     (case gemini_post env prompt of
        Inl e \<Rightarrow> Inl e
      | Inr resp \<Rightarrow>
          if 400 \<le> status_code resp \<and> status_code resp < 600 then
            Inl (HTTPError (str_int (status_code resp) @ '' '' @ text_body resp))
          else
            (case json_body resp of
               Inl e \<Rightarrow> Inl e
             | Inr data \<Rightarrow>
                 (case first_candidate data of
                    Inl e \<Rightarrow> Inl e
                  | Inr candidate \<Rightarrow> candidate_text candidate)))"

text \<open>Lines 18 to 77: every exception of the \<open>try\<close> leaves as a RuntimeError, the missing key
  as a ValueError.\<close>

definition call_gemini :: "text_env \<Rightarrow> string \<Rightarrow> exn + string" where
  "call_gemini env prompt =
     (if GEMINI_API_KEY env = None \<or> GEMINI_API_KEY env = Some [] then
        Inl (Exception ''GEMINI_API_KEY not found in environment variables'')
      else
        (case gemini_try env prompt of
           Inr t \<Rightarrow> Inr t
         | Inl (HTTPError m) \<Rightarrow> Inl (Exception (''Gemini HTTP error: '' @ m))
         | Inl (RequestException m) \<Rightarrow> Inl (Exception (''Gemini network error: '' @ m))
         | Inl (Exception m) \<Rightarrow> Inl (Exception (''Gemini processing error: '' @ m))))"

text \<open>Lines 92 to 106: the request sent to the model.\<close>

definition prompt_request :: "string \<Rightarrow> int \<Rightarrow> string" where
  "prompt_request description num_prompts =
     concat (map (\<lambda>line. line @ [newline])
       [''You are a creative director for advertising. Based on this product description: \"''
          @ description @ ''\"'',
        '''',
        ''Generate '' @ str_int num_prompts @ '' distinct, visually appealing background scene prompts for Stable Diffusion. Each prompt should:'',
        ''1. Describe a unique environment/scene suitable for showcasing this product'',
        ''2. Be vivid and detailed (e.g., \"A sunlit modern kitchen with marble countertops and natural lighting\")'',
        ''3. NOT include the product itself or any text/logos'',
        ''4. Focus on atmosphere, mood, and setting'',
        ''5. Be suitable for placing a product image in the foreground'',
        '''',
        ''Return ONLY a numbered list of '' @ str_int num_prompts @ '' prompts, one per line, without any additional text or explanation.'',
        ''Example format:'',
        ''1. A minimalist white studio with soft natural lighting'',
        ''2. A vibrant urban street scene at golden hour'',
        ''3. A luxurious spa setting with marble and plants''])"

text \<open>\<open>s.split('\n')\<close>: the pieces between the newlines, at least one.\<close>

fun split_lines :: "string \<Rightarrow> string list" where
  "split_lines [] = [[]]"
| "split_lines (c # cs) =
     (if c = newline then [] # split_lines cs
      else (case split_lines cs of [] \<Rightarrow> [[c]] | l # ls \<Rightarrow> (c # l) # ls))"

text \<open>
  Line 120, \<open>re.sub(r'^[\d\-\*\<bullet>]\s*\.?\s*', '', cleaned)\<close>: at the start one digit, hyphen,
  asterisk or bullet (U+2022, three bytes in UTF-8), then white space, at most one full
  stop, and white space again.
\<close>

definition is_digit :: "char \<Rightarrow> bool" where
  "is_digit c = (let n = (of_char c :: nat) in 48 \<le> n \<and> n \<le> 57)"

definition bullet :: string where
  "bullet = [CHR 0xE2, CHR 0x80, CHR 0xA2]"

definition after_marker :: "string \<Rightarrow> string option" where
  "after_marker s =
     (if starts_with bullet s then Some (drop 3 s)
      else (case s of
              [] \<Rightarrow> None
            | c # cs \<Rightarrow> if is_digit c \<or> c = CHR ''-'' \<or> c = CHR ''*'' then Some cs else None))"

definition strip_numbering :: "string \<Rightarrow> string" where
  "strip_numbering s =
     (case after_marker s of
        None \<Rightarrow> s
      | Some t \<Rightarrow>
          (let t1 = dropWhile is_space t;
               t2 = (case t1 of [] \<Rightarrow> t1 | c # cs \<Rightarrow> if c = CHR ''.'' then cs else t1)
           in dropWhile is_space t2))"

text \<open>Line 123, \<open>re.sub(r'^\*\*|^\*|^#+\s*', '', cleaned)\<close>.\<close>

definition strip_markdown :: "string \<Rightarrow> string" where
  "strip_markdown s =
     (if starts_with ''**'' s then drop 2 s
      else if starts_with ''*'' s then drop 1 s
      else if starts_with ''#'' s then dropWhile is_space (dropWhile (\<lambda>c. c = CHR ''#'') s)
      else s)"

text \<open>Lines 115 to 126: what one line of the response adds to the prompts.\<close>

definition parse_line :: "string \<Rightarrow> string option" where
  "parse_line line =
     (let cleaned = str_strip line
      in if cleaned = [] then None
         else (let cleaned2 = strip_markdown (strip_numbering cleaned)
               in if cleaned2 \<noteq> [] \<and> length cleaned2 > 10 then Some (str_strip cleaned2)
                  else None))"

definition parse_prompts :: "string \<Rightarrow> string list" where
  "parse_prompts response_text =
     List.map_filter parse_line (split_lines (str_strip response_text))"

text \<open>Lines 136 to 141: the loop that fills the list up to \<open>num_prompts\<close>.\<close>

function fill_prompts :: "string list \<Rightarrow> string list \<Rightarrow> int \<Rightarrow> string list" where
  "fill_prompts base_prompts prompts num_prompts =
     (if int (length prompts) < num_prompts then
        (let idx = length prompts mod length base_prompts;
             variation = base_prompts ! idx;
             variation2 =
               (if length prompts \<ge> length base_prompts then
                  variation @ '', variation ''
                    @ str_nat (length prompts - length base_prompts + 1)
                else variation)
         in fill_prompts base_prompts (prompts @ [variation2]) num_prompts)
      else prompts)"
  by pat_completeness auto
termination
  by (relation "measure (\<lambda>(base_prompts, prompts, num_prompts).
        nat (num_prompts - int (length prompts)))") auto

declare fill_prompts.simps [simp del]

text \<open>Lines 129 to 141.\<close>

definition ensure_count :: "string \<Rightarrow> string list \<Rightarrow> int \<Rightarrow> string list" where
  "ensure_count description prompts num_prompts =
     (if int (length prompts) < num_prompts then
        (let base_prompts =
               (if prompts \<noteq> [] then prompts
                else [''A professional setting showcasing '' @ description,
                      ''A modern environment featuring '' @ description,
                      ''An elegant backdrop for '' @ description])
         in fill_prompts base_prompts prompts num_prompts)
      else prompts)"

text \<open>The slice \<open>xs[:n]\<close>; a negative \<open>n\<close> counts from the end.\<close>

definition slice_to :: "'a list \<Rightarrow> int \<Rightarrow> 'a list" where
  "slice_to xs n = (if 0 \<le> n then take (nat n) xs else take (nat (int (length xs) + n)) xs)"

text \<open>Lines 150 to 156: the prompts returned from the handler.\<close>

definition fallback_prompts :: "string \<Rightarrow> string list" where
  "fallback_prompts description =
     [''A modern minimalist studio with soft lighting, perfect for showcasing ''
        @ description,
      ''A vibrant contemporary setting with natural elements, ideal for ''
        @ description,
      ''A luxurious elegant environment with sophisticated lighting, showcasing ''
        @ description,
      ''A dynamic urban backdrop with modern aesthetics, featuring '' @ description,
      ''A serene natural setting with professional lighting, highlighting ''
        @ description]"

definition generate_prompts :: "text_env \<Rightarrow> string \<Rightarrow> int \<Rightarrow> string list" where
  "generate_prompts env description num_prompts =
     (case call_gemini env (prompt_request description num_prompts) of
        Inl e \<Rightarrow> fallback_prompts description
      | Inr response_text \<Rightarrow>
          if response_text \<noteq> [] then
            slice_to (ensure_count description (parse_prompts response_text) num_prompts)
              num_prompts
          else [])"

subsection \<open>Sample surroundings\<close>

text \<open>A model that answers every request with the given text, and one that cannot be
  reached.\<close>

definition demo_text_env :: "string \<Rightarrow> text_env" where
  "demo_text_env answer =
     \<lparr>GEMINI_API_KEY = Some ''key'',
      gemini_post = (\<lambda>prompt. Inr
        \<lparr>status_code = 200, text_body = ''body'',
         json_body = Inr (JObj [(''candidates'',
           JArr [JObj [(''content'', JObj [(''parts'', JArr [JObj [(''text'', JStr answer)]])])]])])\<rparr>)\<rparr>"

definition demo_text_env_down :: text_env where
  "demo_text_env_down =
     \<lparr>GEMINI_API_KEY = Some ''key'',
      gemini_post = (\<lambda>prompt. Inl (RequestException ''connection refused''))\<rparr>"

text \<open>A response of two numbered lines.\<close>

definition demo_answer :: string where
  "demo_answer = ''1. A minimalist white studio'' @ [newline] @ ''2. A vibrant urban street scene''"

section \<open>Python floats\<close>

text \<open>
  A Python float is an IEEE 754 binary64 number. A finite one is the rational it stands
  for; the result of an operation is the exact result rounded to the nearest double, ties
  to the even significand. \<open>binade x\<close> is the exponent \<open>e\<close> with \<open>2^e \<le> x < 2^(e+1)\<close>; the
  doubles of that binade are the multiples of \<open>2^(e-52)\<close>, and below \<open>2^(-1022)\<close> (the
  subnormal range) the multiples of \<open>2^(-1074)\<close>. A rounded magnitude of \<open>2^1024\<close> or more
  is no finite double.
\<close>

definition pow2 :: "int \<Rightarrow> rat" where
  "pow2 k = 2 powi k"

definition binade :: "rat \<Rightarrow> int" where
  "binade x =
     (let p = fst (quotient_of x); q = snd (quotient_of x); d = bitlen p - bitlen q
      in if pow2 d \<le> x then d else d - 1)"

definition round_half_even :: "rat \<Rightarrow> int" where
  "round_half_even q =
     (let f = \<lfloor>q\<rfloor>; d = q - of_int f
      in if d < 1 / 2 then f else if 1 / 2 < d then f + 1 else if even f then f else f + 1)"

definition ulp :: "rat \<Rightarrow> rat" where
  "ulp x = pow2 (max (binade \<bar>x\<bar>) (- 1022) - 52)"

definition round_double :: "rat \<Rightarrow> rat" where
  "round_double x = (if x = 0 then 0 else of_int (round_half_even (x / ulp x)) * ulp x)"

text \<open>
  The operations of the compositor. Converting an int that is too large and dividing by
  zero raise. A product or quotient of floats beyond the largest double is \<open>inf\<close> in
  Python, and the \<open>int()\<close> that takes it raises the OverflowError; the model raises it
  with the operation. (The one product that is compared before it is truncated,
  \<open>bg_width * 0.9\<close>, is smaller than its converted factor and cannot overflow.)
\<close>

definition to_double :: "rat \<Rightarrow> exn + rat" where
  "to_double x =
     (if \<bar>round_double x\<bar> < pow2 1024 then Inr (round_double x)
      else Inl (Exception ''OverflowError''))"

definition sum_bind :: "'e + 'a \<Rightarrow> ('a \<Rightarrow> 'e + 'b) \<Rightarrow> 'e + 'b" where
  "sum_bind m f = (case m of Inl e \<Rightarrow> Inl e | Inr v \<Rightarrow> f v)"

definition float_of_int :: "int \<Rightarrow> exn + rat" where
  "float_of_int n = to_double (of_int n)"

definition float_mul :: "rat \<Rightarrow> rat \<Rightarrow> exn + rat" where
  "float_mul x y = to_double (x * y)"

definition float_div :: "rat \<Rightarrow> rat \<Rightarrow> exn + rat" where
  "float_div x y =
     (if y = 0 then Inl (Exception ''float division by zero'') else to_double (x / y))"

text \<open>\<open>n * x\<close> and \<open>n / x\<close> for an int \<open>n\<close> and a float \<open>x\<close>; \<open>a / b\<close> for two ints, which
  Python rounds once, from the exact quotient; \<open>int(x)\<close>, which truncates towards zero.\<close>

definition int_times_float :: "int \<Rightarrow> rat \<Rightarrow> exn + rat" where
  "int_times_float n x = sum_bind (float_of_int n) (\<lambda>f. float_mul f x)"

definition int_over_float :: "int \<Rightarrow> rat \<Rightarrow> exn + rat" where
  "int_over_float n x = sum_bind (float_of_int n) (\<lambda>f. float_div f x)"

definition int_true_div :: "int \<Rightarrow> int \<Rightarrow> exn + rat" where
  "int_true_div a b =
     (if b = 0 then Inl (Exception ''division by zero'')
      else to_double (of_int a / of_int b))"

definition int_of_float :: "rat \<Rightarrow> int" where
  "int_of_float x = (if 0 \<le> x then \<lfloor>x\<rfloor> else \<lceil>x\<rceil>)"

section \<open>Pillow operations\<close>

text \<open>
  Two things Pillow does are taken as given: how the pixels of an image read in another
  mode, and what the resampling filter makes of an image at a new size. Everything else
  follows the library: its Python layer (\<open>Image.py\<close>) and, for the pixels, the integer
  arithmetic of its core (\<open>Paste.c\<close>, \<open>AlphaComposite.c\<close>). Allocation is taken to succeed.
\<close>

record pillow =
  convert_pixels :: "image \<Rightarrow> mode \<Rightarrow> exn + (int \<Rightarrow> int \<Rightarrow> pixel)"
  resample :: "image \<Rightarrow> int \<Rightarrow> int \<Rightarrow> exn + (int \<Rightarrow> int \<Rightarrow> pixel)"

text \<open>\<open>im.copy()\<close> and \<open>im.convert(mode)\<close>; converting to the mode an image has copies it.\<close>

definition copy :: "image \<Rightarrow> image" where
  "copy im = im"

definition convert :: "pillow \<Rightarrow> image \<Rightarrow> mode \<Rightarrow> exn + image" where
  "convert pil im m =
     (if m = mode im then Inr (copy im)
      else sum_bind (convert_pixels pil im m)
             (\<lambda>px. Inr (im\<lparr>mode := m, getpixel := px\<rparr>)))"

text \<open>\<open>im.resize(size, LANCZOS)\<close>: a copy when the size is the image's own; the core refuses
  a side below one pixel.\<close>

definition resize :: "pillow \<Rightarrow> image \<Rightarrow> int \<times> int \<Rightarrow> exn + image" where
  "resize pil im sz =
     (if sz = (int (width im), int (height im)) then Inr (copy im)
      else if fst sz < 1 \<or> snd sz < 1 then
        Inl (Exception ''height and width must be > 0'')
      else sum_bind (resample pil im (fst sz) (snd sz))
             (\<lambda>px. Inr (im\<lparr>width := nat (fst sz), height := nat (snd sz),
                             getpixel := px\<rparr>)))"

text \<open>\<open>Image.new(mode, size, color)\<close>.\<close>

definition new_image :: "mode \<Rightarrow> nat \<times> nat \<Rightarrow> pixel \<Rightarrow> image" where
  "new_image m sz color =
     \<lparr>mode = m, width = fst sz, height = snd sz, getpixel = (\<lambda>x y. color)\<rparr>"

text \<open>The core's division by 255 with rounding, on an unsigned int.\<close>

definition shift_for_div255 :: "nat \<Rightarrow> nat" where
  "shift_for_div255 v = (v div 256 + v) div 256"

definition div255 :: "nat \<Rightarrow> nat" where
  "div255 v = shift_for_div255 (v + 128)"

text \<open>\<open>BLEND8(mask, in1, in2)\<close> and \<open>PREBLEND8(mask, in1, in2)\<close>, stored into a byte.\<close>

definition blend8 :: "8 word \<Rightarrow> 8 word \<Rightarrow> 8 word \<Rightarrow> 8 word" where
  "blend8 matte in1 in2 =
     of_nat (div255 (unat in1 * (255 - unat matte) + unat in2 * unat matte))"

definition preblend8 :: "8 word \<Rightarrow> 8 word \<Rightarrow> 8 word \<Rightarrow> 8 word" where
  "preblend8 matte in1 in2 =
     of_nat (div255 (unat in1 * (255 - unat matte)) + unat in2)"

definition map_pixel2 :: "(8 word \<Rightarrow> 8 word \<Rightarrow> 8 word) \<Rightarrow> pixel \<Rightarrow> pixel \<Rightarrow> pixel" where
  "map_pixel2 f p q =
     \<lparr>red = f (red p) (red q), green = f (green p) (green q), blue = f (blue p) (blue q),
      alpha = f (alpha p) (alpha q)\<rparr>"

text \<open>
  One pixel of \<open>ImagingPaste\<close> with a matte: the new value of the pixel \<open>out\<close> under the pixel
  \<open>inp\<close> of the pasted image and the pixel \<open>m\<close> of the matte. A matte of mode \<open>1\<close> or \<open>L\<close> has
  its value in its first byte, one of mode \<open>LA\<close>, \<open>RGBA\<close> or \<open>RGBa\<close> its alpha in the
  fourth. Any other mode is no transparency matte.
\<close>

definition paste_pixel :: "mode \<Rightarrow> pixel \<Rightarrow> pixel \<Rightarrow> pixel \<Rightarrow> exn + pixel" where
  "paste_pixel mask_mode out inp m =
     (if mask_mode = Mode1 then Inr (if red m \<noteq> 0 then inp else out)
      else if mask_mode = L then Inr (map_pixel2 (blend8 (red m)) out inp)
      else if mask_mode = LA \<or> mask_mode = RGBA then Inr (map_pixel2 (blend8 (alpha m)) out inp)
      else if mask_mode = RGBa then Inr (map_pixel2 (preblend8 (alpha m)) out inp)
      else Inl (Exception ''bad transparency mask''))"

definition is_mask_mode :: "mode \<Rightarrow> bool" where
  "is_mask_mode m = (m = Mode1 \<or> m = L \<or> m = LA \<or> m = RGBA \<or> m = RGBa)"

text \<open>
  \<open>self.paste(im, box, mask)\<close> with the upper left corner as the box: \<open>im\<close> is brought to
  the mode of \<open>self\<close> (but for an image with alpha pasted into RGB), and the part of it that
  falls inside \<open>self\<close> is blended in under the matte.
\<close>

definition in_box :: "int \<times> int \<Rightarrow> image \<Rightarrow> int \<Rightarrow> int \<Rightarrow> bool" where
  "in_box box im x y =
     (fst box \<le> x \<and> x < fst box + int (width im) \<and>
      snd box \<le> y \<and> y < snd box + int (height im))"

definition paste :: "pillow \<Rightarrow> image \<Rightarrow> image \<Rightarrow> int \<times> int \<Rightarrow> image \<Rightarrow> exn + image" where
  "paste pil self im box matte =
     sum_bind
       (if mode self \<noteq> mode im \<and>
           (mode self \<noteq> RGB \<or> (mode im \<noteq> LA \<and> mode im \<noteq> RGBA \<and> mode im \<noteq> RGBa))
        then convert pil im (mode self) else Inr im)
       (\<lambda>im2.
          if \<not> is_mask_mode (mode matte) then Inl (Exception ''bad transparency mask'')
          else
            Inr (self\<lparr>getpixel := (\<lambda>x y.
                   if in_box box im2 x y then
                     (case paste_pixel (mode matte) (getpixel self x y)
                             (getpixel im2 (x - fst box) (y - snd box))
                             (getpixel matte (x - fst box) (y - snd box)) of
                        Inr p \<Rightarrow> p
                      | Inl e \<Rightarrow> getpixel self x y)
                   else getpixel self x y)\<rparr>))"

text \<open>
  One pixel of \<open>ImagingAlphaComposite\<close>: \<open>src\<close> over \<open>dst\<close>, with seven more bits of
  precision in the coefficients.
\<close>

definition composite_channel :: "nat \<Rightarrow> nat \<Rightarrow> 8 word \<Rightarrow> 8 word \<Rightarrow> 8 word" where
  "composite_channel coef1 coef2 s d =
     of_nat (shift_for_div255 (unat s * coef1 + unat d * coef2 + 128 * 128) div 128)"

definition alpha_composite_pixel :: "pixel \<Rightarrow> pixel \<Rightarrow> pixel" where
  "alpha_composite_pixel dst src =
     (if alpha src = 0 then dst
      else
        (let blend = unat (alpha dst) * (255 - unat (alpha src));
             outa255 = unat (alpha src) * 255 + blend;
             coef1 = unat (alpha src) * 255 * 255 * 128 div outa255;
             coef2 = 255 * 128 - coef1
         in \<lparr>red = composite_channel coef1 coef2 (red src) (red dst),
             green = composite_channel coef1 coef2 (green src) (green dst),
             blue = composite_channel coef1 coef2 (blue src) (blue dst),
             alpha = of_nat (shift_for_div255 (outa255 + 128))\<rparr>))"

text \<open>\<open>Image.alpha_composite(im1, im2)\<close>: both RGBA and of one size.\<close>

definition alpha_composite :: "image \<Rightarrow> image \<Rightarrow> exn + image" where
  "alpha_composite im1 im2 =
     (if mode im1 \<noteq> RGBA then Inl (Exception ''image has wrong mode'')
      else if mode im2 \<noteq> mode im1 \<or> width im2 \<noteq> width im1 \<or> height im2 \<noteq> height im1 then
        Inl (Exception ''images do not match'')
      else
        Inr (im1\<lparr>getpixel :=
               (\<lambda>x y. alpha_composite_pixel (getpixel im1 x y) (getpixel im2 x y))\<rparr>))"

section \<open>logic\_image\_edit.py: create\_composite\<close>

text \<open>Lines 77 to 95: \_prepare\_image; both branches convert.\<close>

definition prepare_image :: "pillow \<Rightarrow> image \<Rightarrow> mode \<Rightarrow> exn + image" where
  "prepare_image pil im m =
     (if mode im \<noteq> m then
        (if m = RGBA \<and> mode im = RGB then convert pil im RGBA else convert pil im m)
      else Inr im)"

text \<open>Lines 98 to 116: \_paste\_with\_alpha.\<close>

definition transparent :: pixel where
  "transparent = \<lparr>red = 0, green = 0, blue = 0, alpha = 0\<rparr>"

definition paste_with_alpha :: "pillow \<Rightarrow> image \<Rightarrow> image \<Rightarrow> int \<times> int \<Rightarrow> exn + image" where
  "paste_with_alpha pil base overlay position =
     (let temp = new_image RGBA (width base, height base) transparent
      in sum_bind (paste pil temp overlay position overlay)
           (\<lambda>temp2. alpha_composite base temp2))"

text \<open>The float literals of the module and the two default ratios.\<close>

definition lit_0_9 :: rat where "lit_0_9 = round_double (9 / 10)"
definition lit_0_05 :: rat where "lit_0_05 = round_double (5 / 100)"
definition lit_0_02 :: rat where "lit_0_02 = round_double (2 / 100)"
definition default_product_size_ratio :: rat where
  "default_product_size_ratio = round_double (4 / 10)"
definition default_logo_size_ratio :: rat where
  "default_logo_size_ratio = round_double (15 / 100)"

text \<open>\<open>int(n * x)\<close> and \<open>int(n / x)\<close>.\<close>

definition int_of_product :: "int \<Rightarrow> rat \<Rightarrow> exn + int" where
  "int_of_product n x = sum_bind (int_times_float n x) (\<lambda>f. Inr (int_of_float f))"

definition int_of_quotient :: "int \<Rightarrow> rat \<Rightarrow> exn + int" where
  "int_of_quotient n x = sum_bind (int_over_float n x) (\<lambda>f. Inr (int_of_float f))"

text \<open>Lines 36 to 45: the size the product is resized to, width first.\<close>

definition product_target :: "nat \<Rightarrow> nat \<Rightarrow> image \<Rightarrow> rat \<Rightarrow> exn + int \<times> int" where
  "product_target bg_width bg_height product product_size_ratio =
     sum_bind (int_of_product (int bg_height) product_size_ratio) (\<lambda>product_target_height.
     sum_bind (int_true_div (int (width product)) (int (height product))) (\<lambda>product_aspect.
     sum_bind (int_of_product product_target_height product_aspect) (\<lambda>product_target_width.
     sum_bind (int_times_float (int bg_width) lit_0_9) (\<lambda>limit.
       if of_int product_target_width > limit then
         sum_bind (int_of_product (int bg_width) lit_0_9) (\<lambda>capped_width.
         sum_bind (int_of_quotient capped_width product_aspect) (\<lambda>capped_height.
           Inr (capped_width, capped_height)))
       else Inr (product_target_width, product_target_height)))))"

text \<open>Lines 50 and 51: where the product goes.\<close>

definition product_position :: "nat \<Rightarrow> nat \<Rightarrow> int \<times> int \<Rightarrow> exn + int \<times> int" where
  "product_position bg_width bg_height target =
     sum_bind (int_of_product (int bg_height) lit_0_05) (\<lambda>margin.
       Inr ((int bg_width - fst target) div 2, int bg_height - snd target - margin))"

text \<open>Lines 60 to 62: the size the logo is resized to.\<close>

definition logo_target :: "nat \<Rightarrow> image \<Rightarrow> rat \<Rightarrow> exn + int \<times> int" where
  "logo_target bg_width logo logo_size_ratio =
     sum_bind (int_of_product (int bg_width) logo_size_ratio) (\<lambda>logo_target_width.
     sum_bind (int_true_div (int (width logo)) (int (height logo))) (\<lambda>logo_aspect.
     sum_bind (int_of_quotient logo_target_width logo_aspect) (\<lambda>logo_target_height.
       Inr (logo_target_width, logo_target_height))))"

text \<open>Lines 67 to 69: where the logo goes.\<close>

definition logo_position :: "nat \<Rightarrow> int \<times> int \<Rightarrow> exn + int \<times> int" where
  "logo_position bg_width target =
     sum_bind (int_of_product (int bg_width) lit_0_02) (\<lambda>logo_margin.
       Inr (int bg_width - fst target - logo_margin, logo_margin))"

text \<open>Lines 24 to 74.\<close>

definition create_composite ::
  "pillow \<Rightarrow> image \<Rightarrow> image \<Rightarrow> image \<Rightarrow> rat \<Rightarrow> rat \<Rightarrow> exn + image" where
  "create_composite pil background product logo product_size_ratio logo_size_ratio =
     sum_bind (if mode background \<noteq> RGBA then convert pil background RGBA else Inr background)
       (\<lambda>background2.
     let composite = copy background2 in
     sum_bind (prepare_image pil product RGBA) (\<lambda>product2.
     let bg_width = width composite; bg_height = height composite in
     sum_bind (product_target bg_width bg_height product2 product_size_ratio)
       (\<lambda>product_size.
     sum_bind (resize pil product2 product_size) (\<lambda>product_resized.
     sum_bind (product_position bg_width bg_height product_size) (\<lambda>product_xy.
     sum_bind (paste_with_alpha pil composite product_resized product_xy) (\<lambda>composite2.
     sum_bind (prepare_image pil logo RGBA) (\<lambda>logo2.
     sum_bind (logo_target bg_width logo2 logo_size_ratio) (\<lambda>logo_size.
     sum_bind (resize pil logo2 logo_size) (\<lambda>logo_resized.
     sum_bind (logo_position bg_width logo_size) (\<lambda>logo_xy.
       paste_with_alpha pil composite2 logo_resized logo_xy))))))))))"

subsection \<open>Sample images\<close>

text \<open>A library whose conversions keep the pixels and whose filter spreads the first pixel.\<close>

definition demo_pil :: pillow where
  "demo_pil = \<lparr>convert_pixels = (\<lambda>im m. Inr (getpixel im)),
               resample = (\<lambda>im w h. Inr (\<lambda>x y. getpixel im 0 0))\<rparr>"

definition grey :: pixel where
  "grey = \<lparr>red = 100, green = 100, blue = 100, alpha = 255\<rparr>"

definition scarlet :: pixel where
  "scarlet = \<lparr>red = 200, green = 10, blue = 20, alpha = 255\<rparr>"

text \<open>A grey base of two by one pixels, and an overlay of two by one pixels: scarlet and
  opaque on the left, transparent on the right.\<close>

definition demo_base :: image where
  "demo_base = new_image RGBA (2, 1) grey"

definition demo_overlay :: image where
  "demo_overlay = \<lparr>mode = RGBA, width = 2, height = 1,
                    getpixel = (\<lambda>x y. if x = 0 then scarlet else scarlet\<lparr>alpha := 0\<rparr>)\<rparr>"

section \<open>Notions for the properties of the compositor\<close>

text \<open>The aspect ratio \<open>a / b\<close> as a float.\<close>

definition aspect_of :: "int \<Rightarrow> int \<Rightarrow> rat" where
  "aspect_of a b = round_double (of_int a / of_int b)"

text \<open>The images the theorems speak of: sides below \<open>2^24\<close> pixels, and a height and a
  width where the code divides by them.\<close>

definition small_side :: "nat \<Rightarrow> bool" where
  "small_side n = (n < 2 ^ 24)"


subsection \<open>Sample inputs\<close>

text \<open>The scenario of the specification: a background of 1024 by 1024 pixels (in mode RGB,
  as the service sends it), a square product and a logo twice as wide as high; and a very
  wide product.\<close>

definition demo_background :: image where
  "demo_background = new_image RGB (1024, 1024) grey"

definition demo_product :: image where
  "demo_product = new_image RGBA (500, 500) scarlet"

definition demo_logo :: image where
  "demo_logo = new_image RGBA (200, 100) scarlet"

definition demo_wide_product :: image where
  "demo_wide_product = new_image RGBA (1000, 10) scarlet"

section \<open>Properties of generate\_background\<close>

lemma read_artifacts_shape:
  "read_artifacts env resp = Inr res \<Longrightarrow> bg_shape_ok res"
  by (auto simp: read_artifacts_def bg_shape_ok_def
      split: sum.splits bool.splits if_splits)

lemma handle_response_shape:
  "handle_response env resp = Inr res \<Longrightarrow> bg_shape_ok res"
  by (auto simp: handle_response_def bg_shape_ok_def read_artifacts_shape
      split: if_splits dest: read_artifacts_shape)

lemma try_generate_shape:
  "try_generate env prompt w h = Inr res \<Longrightarrow> bg_shape_ok res"
  by (auto simp: try_generate_def split: option.splits sum.splits
      dest: handle_response_shape)

lemma except_text_nonempty: "except_text e \<noteq> []"
  by (cases e) simp_all

text \<open>
  C10. generate\_background returns either an image with no message, or no image with a
  non-empty message; never neither and never both. Path by path: without the key it
  returns no image and the message of line 66. With the key, an exception raised while
  the base image is built, by the request, or while the answer of status 200 is read gives
  no image and the message of the handler that catches it; the statuses 402, 401 and 429
  and every other status but 200 give no image and their message; an answer of status 200
  without the key \<open>artifacts\<close> or with none of them gives no image and the message of line
  113; and an answer of status 200 whose first artifact opens as an image gives that image
  and no message.
\<close>

theorem generate_background_shape:
  fixes env :: gen_env and prompt :: string and w h :: int
  defines "res \<equiv> generate_background env prompt w h"
  shows
  "((\<exists>img. res = (Some img, None)) \<or> (\<exists>message. message \<noteq> [] \<and> res = (None, Some message))) \<and>
   (STABILITY_API_KEY env = None \<or> STABILITY_API_KEY env = Some [] \<longrightarrow>
      res = (None, Some ''STABILITY_API_KEY not found in environment variables'')) \<and>
   (\<forall>key. STABILITY_API_KEY env = Some key \<and> key \<noteq> [] \<longrightarrow>
      (\<forall>e. base_image_upload env w h = Some e \<longrightarrow> res = (None, Some (except_text e))) \<and>
      (base_image_upload env w h = None \<longrightarrow>
         (\<forall>e. requests_post env prompt = Inl e \<longrightarrow> res = (None, Some (except_text e))) \<and>
         (\<forall>resp. requests_post env prompt = Inr resp \<longrightarrow>
            (status_code resp = 402 \<longrightarrow>
               res = (None, Some ''Stable Diffusion 3.5 Medium model is not accessible. Your credits may have ended. Please check your Stability AI account balance.'')) \<and>
            (status_code resp = 401 \<longrightarrow>
               res = (None, Some ''Invalid API key. Please check your STABILITY_API_KEY in the .env file.'')) \<and>
            (status_code resp = 429 \<longrightarrow>
               res = (None, Some ''Rate limit exceeded. Please wait a moment and try again.'')) \<and>
            (status_code resp \<notin> {200, 402, 401, 429} \<longrightarrow>
               res = (None, Some (''API Error ('' @ str_int (status_code resp) @ ''): ''
                                   @ api_error_text env resp))) \<and>
            (status_code resp = 200 \<longrightarrow>
               (\<forall>e. json_body resp = Inl e \<longrightarrow> res = (None, Some (except_text e))) \<and>
               (\<forall>result. json_body resp = Inr result \<longrightarrow>
                  (\<forall>e. py_in ''artifacts'' result = Inl e \<longrightarrow>
                     res = (None, Some (except_text e))) \<and>
                  (py_in ''artifacts'' result = Inr False \<longrightarrow>
                     res = (None, Some ''No artifacts in API response'')) \<and>
                  (py_in ''artifacts'' result = Inr True \<longrightarrow>
                     (\<forall>e. py_getitem result ''artifacts'' = Inl e \<longrightarrow>
                        res = (None, Some (except_text e))) \<and>
                     (\<forall>arts. py_getitem result ''artifacts'' = Inr arts \<longrightarrow>
                        (\<forall>e. py_len arts = Inl e \<longrightarrow> res = (None, Some (except_text e))) \<and>
                        (py_len arts = Inr 0 \<longrightarrow>
                           res = (None, Some ''No artifacts in API response'')) \<and>
                        (\<forall>n. py_len arts = Inr n \<and> 0 < n \<longrightarrow>
                           (\<forall>e. py_getitem0 arts = Inl e \<longrightarrow>
                              res = (None, Some (except_text e))) \<and>
                           (\<forall>art. py_getitem0 arts = Inr art \<longrightarrow>
                              (\<forall>e. py_getitem art ''base64'' = Inl e \<longrightarrow>
                                 res = (None, Some (except_text e))) \<and>
                              (\<forall>image_data. py_getitem art ''base64'' = Inr image_data \<longrightarrow>
                                 (\<forall>e. open_artifact env image_data = Inl e \<longrightarrow>
                                    res = (None, Some (except_text e))) \<and>
                                 (\<forall>img. open_artifact env image_data = Inr img \<longrightarrow>
                                    res = (Some img, None))))))))))))"
proof (intro conjI)
  have "bg_shape_ok res"
    unfolding res_def
    by (auto simp: generate_background_def bg_shape_ok_def except_text_nonempty
        split: sum.splits dest: try_generate_shape)
  then show "(\<exists>img. res = (Some img, None)) \<or>
      (\<exists>message. message \<noteq> [] \<and> res = (None, Some message))"
    by (auto simp: bg_shape_ok_def split: prod.splits option.splits)
next
  show "STABILITY_API_KEY env = None \<or> STABILITY_API_KEY env = Some [] \<longrightarrow>
      res = (None, Some ''STABILITY_API_KEY not found in environment variables'')"
    by (auto simp: res_def generate_background_def)
next
  show "\<forall>key. STABILITY_API_KEY env = Some key \<and> key \<noteq> [] \<longrightarrow>
      (\<forall>e. base_image_upload env w h = Some e \<longrightarrow> res = (None, Some (except_text e))) \<and>
      (base_image_upload env w h = None \<longrightarrow>
         (\<forall>e. requests_post env prompt = Inl e \<longrightarrow> res = (None, Some (except_text e))) \<and>
         (\<forall>resp. requests_post env prompt = Inr resp \<longrightarrow>
            (status_code resp = 402 \<longrightarrow>
               res = (None, Some ''Stable Diffusion 3.5 Medium model is not accessible. Your credits may have ended. Please check your Stability AI account balance.'')) \<and>
            (status_code resp = 401 \<longrightarrow>
               res = (None, Some ''Invalid API key. Please check your STABILITY_API_KEY in the .env file.'')) \<and>
            (status_code resp = 429 \<longrightarrow>
               res = (None, Some ''Rate limit exceeded. Please wait a moment and try again.'')) \<and>
            (status_code resp \<notin> {200, 402, 401, 429} \<longrightarrow>
               res = (None, Some (''API Error ('' @ str_int (status_code resp) @ ''): ''
                                   @ api_error_text env resp))) \<and>
            (status_code resp = 200 \<longrightarrow>
               (\<forall>e. json_body resp = Inl e \<longrightarrow> res = (None, Some (except_text e))) \<and>
               (\<forall>result. json_body resp = Inr result \<longrightarrow>
                  (\<forall>e. py_in ''artifacts'' result = Inl e \<longrightarrow>
                     res = (None, Some (except_text e))) \<and>
                  (py_in ''artifacts'' result = Inr False \<longrightarrow>
                     res = (None, Some ''No artifacts in API response'')) \<and>
                  (py_in ''artifacts'' result = Inr True \<longrightarrow>
                     (\<forall>e. py_getitem result ''artifacts'' = Inl e \<longrightarrow>
                        res = (None, Some (except_text e))) \<and>
                     (\<forall>arts. py_getitem result ''artifacts'' = Inr arts \<longrightarrow>
                        (\<forall>e. py_len arts = Inl e \<longrightarrow> res = (None, Some (except_text e))) \<and>
                        (py_len arts = Inr 0 \<longrightarrow>
                           res = (None, Some ''No artifacts in API response'')) \<and>
                        (\<forall>n. py_len arts = Inr n \<and> 0 < n \<longrightarrow>
                           (\<forall>e. py_getitem0 arts = Inl e \<longrightarrow>
                              res = (None, Some (except_text e))) \<and>
                           (\<forall>art. py_getitem0 arts = Inr art \<longrightarrow>
                              (\<forall>e. py_getitem art ''base64'' = Inl e \<longrightarrow>
                                 res = (None, Some (except_text e))) \<and>
                              (\<forall>image_data. py_getitem art ''base64'' = Inr image_data \<longrightarrow>
                                 (\<forall>e. open_artifact env image_data = Inl e \<longrightarrow>
                                    res = (None, Some (except_text e))) \<and>
                                 (\<forall>img. open_artifact env image_data = Inr img \<longrightarrow>
                                    res = (Some img, None)))))))))))"
    unfolding res_def
    by (simp add: generate_background_def try_generate_def handle_response_def
        read_artifacts_def)
qed

text \<open>
  Without the key; with the key and no network; with the statuses 402 and 429; with status
  200 and no artifact, one artifact that lacks its \<open>base64\<close> member, and one artifact that
  opens as an image.
\<close>

theorem generate_background_shape_witness:
  "STABILITY_API_KEY demo_gen_env_no_key = None \<and>
   generate_background demo_gen_env_no_key ''a beach'' 1024 1024
     = (None, Some ''STABILITY_API_KEY not found in environment variables'') \<and>
   STABILITY_API_KEY demo_gen_env_offline = Some ''key'' \<and>
   base_image_upload demo_gen_env_offline 1024 1024 = None \<and>
   requests_post demo_gen_env_offline ''a beach'' = Inl (RequestException ''connection refused'') \<and>
   generate_background demo_gen_env_offline ''a beach'' 1024 1024
     = (None, Some ''Network error: connection refused'') \<and>
   generate_background (demo_gen_env 402) ''a beach'' 1024 1024
     = (None, Some ''Stable Diffusion 3.5 Medium model is not accessible. Your credits may have ended. Please check your Stability AI account balance.'') \<and>
   generate_background (demo_gen_env 429) ''a beach'' 1024 1024
     = (None, Some ''Rate limit exceeded. Please wait a moment and try again.'') \<and>
   generate_background (demo_gen_env_answer (JObj [(''artifacts'', JArr [])])) ''a beach'' 1024 1024
     = (None, Some ''No artifacts in API response'') \<and>
   generate_background (demo_gen_env_answer (JObj [(''artifacts'', JArr [JObj []])]))
       ''a beach'' 1024 1024
     = (None, Some (''Error generating background: '' @ py_repr ''base64'')) \<and>
   generate_background (demo_gen_env 200) ''a beach'' 1024 1024 = (Some demo_image, None)"
proof -
  note defs = demo_gen_env_no_key_def demo_gen_env_offline_def demo_gen_env_answer_def
    demo_gen_env_def dict_get_def
  have "STABILITY_API_KEY demo_gen_env_no_key = None"
    "STABILITY_API_KEY demo_gen_env_offline = Some ''key''"
    "base_image_upload demo_gen_env_offline 1024 1024 = None"
    "requests_post demo_gen_env_offline ''a beach'' = Inl (RequestException ''connection refused'')"
    by (simp_all add: defs)
  moreover
  from generate_background_shape [where env = demo_gen_env_no_key and prompt = "''a beach''"
      and w = 1024 and h = 1024]
  have "generate_background demo_gen_env_no_key ''a beach'' 1024 1024
     = (None, Some ''STABILITY_API_KEY not found in environment variables'')"
    by (simp add: defs)
  moreover
  from generate_background_shape [where env = demo_gen_env_offline and prompt = "''a beach''"
      and w = 1024 and h = 1024]
  have "generate_background demo_gen_env_offline ''a beach'' 1024 1024
     = (None, Some ''Network error: connection refused'')"
    by (simp add: defs)
  moreover
  from generate_background_shape [where env = "demo_gen_env 402" and prompt = "''a beach''"
      and w = 1024 and h = 1024]
  have "generate_background (demo_gen_env 402) ''a beach'' 1024 1024
     = (None, Some ''Stable Diffusion 3.5 Medium model is not accessible. Your credits may have ended. Please check your Stability AI account balance.'')"
    by (simp add: defs)
  moreover
  from generate_background_shape [where env = "demo_gen_env 429" and prompt = "''a beach''"
      and w = 1024 and h = 1024]
  have "generate_background (demo_gen_env 429) ''a beach'' 1024 1024
     = (None, Some ''Rate limit exceeded. Please wait a moment and try again.'')"
    by (simp add: defs)
  moreover
  from generate_background_shape
    [where env = "demo_gen_env_answer (JObj [(''artifacts'', JArr [])])"
      and prompt = "''a beach''" and w = 1024 and h = 1024]
  have "generate_background (demo_gen_env_answer (JObj [(''artifacts'', JArr [])]))
      ''a beach'' 1024 1024 = (None, Some ''No artifacts in API response'')"
    by (simp add: defs)
  moreover
  from generate_background_shape
    [where env = "demo_gen_env_answer (JObj [(''artifacts'', JArr [JObj []])])"
      and prompt = "''a beach''" and w = 1024 and h = 1024]
  have "generate_background (demo_gen_env_answer (JObj [(''artifacts'', JArr [JObj []])]))
       ''a beach'' 1024 1024
     = (None, Some (''Error generating background: '' @ py_repr ''base64''))"
    by (simp add: defs)
  moreover
  from generate_background_shape [where env = "demo_gen_env 200" and prompt = "''a beach''"
      and w = 1024 and h = 1024]
  have "generate_background (demo_gen_env 200) ''a beach'' 1024 1024 = (Some demo_image, None)"
    by (simp add: defs)
  ultimately show ?thesis by (intro conjI)
qed

section \<open>Properties of the generation loop\<close>

lemma calls_append: "calls (xs @ ys) = calls xs @ calls ys"
  by (induction xs rule: calls.induct) auto

lemma step_fatal:
  "fatal_at env ip \<Longrightarrow>
   \<exists>s'. variation_step env P Lg caps n ip s = Stop s' \<and>
        calls (trace s') = calls (trace s) @ [fst ip] \<and>
        failed_generations s' = failed_generations s @ [Suc (fst ip)] \<and>
        composites s' = composites s"
  by (auto simp: fatal_at_def variation_step_def Let_def calls_append
      split: prod.splits option.splits)

lemma step_failed:
  "\<not> fatal_at env ip \<Longrightarrow> \<not> succeeds_at env P Lg caps ip \<Longrightarrow>
   \<exists>s'. variation_step env P Lg caps n ip s = Done s' \<and>
        calls (trace s') = calls (trace s) @ [fst ip] \<and>
        failed_generations s' = failed_generations s @ [Suc (fst ip)] \<and>
        composites s' = composites s"
  by (auto simp: fatal_at_def succeeds_at_def variation_step_def Let_def calls_append
      split: prod.splits option.splits sum.splits)

lemma step_success:
  "succeeds_at env P Lg caps ip \<Longrightarrow>
   \<exists>s'. variation_step env P Lg caps n ip s = Done s' \<and>
        calls (trace s') = calls (trace s) @ [fst ip] \<and>
        failed_generations s' = failed_generations s \<and>
        map variation_num (composites s') = map variation_num (composites s) @ [Suc (fst ip)]"
  by (auto simp: succeeds_at_def variation_step_def Let_def calls_append make_variation_def
      split: prod.splits option.splits sum.splits)

lemma fatal_not_succeeds: "fatal_at env ip \<Longrightarrow> \<not> succeeds_at env P Lg caps ip"
  by (auto simp: fatal_at_def succeeds_at_def split: prod.splits option.splits)

lemma attempted_Nil: "attempted env [] = []"
  by (simp add: attempted_def)

lemma attempted_Cons:
  "attempted env (ip # ips) = (if fatal_at env ip then [ip] else ip # attempted env ips)"
  by (simp add: attempted_def)

text \<open>
  C7. The loop stops exactly when some pair meets a failure that line 166 takes for
  exhausted credits. The background generator is called for the pairs up to and including
  the first such pair and for none after it; of the pairs reached, those that fail (for
  whatever reason) are the recorded failed generations, in order, and the others are the
  composites.
\<close>

theorem credits_failure_aborts_other_failures_skip:
  "\<exists>s'. variation_loop env P Lg caps n ips s =
          (if list_ex (fatal_at env) ips then Stop s' else Done s') \<and>
        calls (trace s') = calls (trace s) @ map fst (attempted env ips) \<and>
        failed_generations s' = failed_generations s @
          map (\<lambda>ip. Suc (fst ip))
            (filter (\<lambda>ip. \<not> succeeds_at env P Lg caps ip) (attempted env ips)) \<and>
        map variation_num (composites s') = map variation_num (composites s) @
          map (\<lambda>ip. Suc (fst ip))
            (filter (\<lambda>ip. succeeds_at env P Lg caps ip) (attempted env ips))"
proof (induction ips arbitrary: s)
  case Nil
  show ?case by (simp add: attempted_Nil)
next
  case (Cons ip ips)
  show ?case
  proof (cases "fatal_at env ip")
    case True
    from step_fatal [OF True, of P Lg caps n s] obtain s1 where
      "variation_step env P Lg caps n ip s = Stop s1"
      "calls (trace s1) = calls (trace s) @ [fst ip]"
      "failed_generations s1 = failed_generations s @ [Suc (fst ip)]"
      "composites s1 = composites s" by blast
    with True fatal_not_succeeds [OF True, of P Lg caps] show ?thesis
      by (auto simp: attempted_Cons)
  next
    case nf: False
    show ?thesis
    proof (cases "succeeds_at env P Lg caps ip")
      case True
      from step_success [OF True, of n s] obtain s1 where s1:
        "variation_step env P Lg caps n ip s = Done s1"
        "calls (trace s1) = calls (trace s) @ [fst ip]"
        "failed_generations s1 = failed_generations s"
        "map variation_num (composites s1) = map variation_num (composites s) @ [Suc (fst ip)]"
        by blast
      from Cons.IH [of s1] obtain s' where
        "variation_loop env P Lg caps n ips s1 =
          (if list_ex (fatal_at env) ips then Stop s' else Done s')"
        "calls (trace s') = calls (trace s1) @ map fst (attempted env ips)"
        "failed_generations s' = failed_generations s1 @
          map (\<lambda>ip. Suc (fst ip))
            (filter (\<lambda>ip. \<not> succeeds_at env P Lg caps ip) (attempted env ips))"
        "map variation_num (composites s') = map variation_num (composites s1) @
          map (\<lambda>ip. Suc (fst ip))
            (filter (\<lambda>ip. succeeds_at env P Lg caps ip) (attempted env ips))"
        by blast
      with s1 nf True show ?thesis
        by (auto simp: attempted_Cons)
    next
      case False
      from step_failed [OF nf False, of n s] obtain s1 where s1:
        "variation_step env P Lg caps n ip s = Done s1"
        "calls (trace s1) = calls (trace s) @ [fst ip]"
        "failed_generations s1 = failed_generations s @ [Suc (fst ip)]"
        "composites s1 = composites s"
        by blast
      from Cons.IH [of s1] obtain s' where
        "variation_loop env P Lg caps n ips s1 =
          (if list_ex (fatal_at env) ips then Stop s' else Done s')"
        "calls (trace s') = calls (trace s1) @ map fst (attempted env ips)"
        "failed_generations s' = failed_generations s1 @
          map (\<lambda>ip. Suc (fst ip))
            (filter (\<lambda>ip. \<not> succeeds_at env P Lg caps ip) (attempted env ips))"
        "map variation_num (composites s') = map variation_num (composites s1) @
          map (\<lambda>ip. Suc (fst ip))
            (filter (\<lambda>ip. succeeds_at env P Lg caps ip) (attempted env ips))"
        by blast
      with s1 nf False show ?thesis
        by (auto simp: attempted_Cons)
    qed
  qed
qed

lemma demo_background_200:
  "generate_background (demo_gen_env 200) p 1024 1024 = (Some demo_image, None)"
  by (simp add: generate_background_def demo_gen_env_def try_generate_def
      handle_response_def read_artifacts_def dict_get_def)

lemma demo_background_429:
  "generate_background (demo_gen_env 429) p 1024 1024 =
     (None, Some ''Rate limit exceeded. Please wait a moment and try again.'')"
  by (simp add: generate_background_def demo_gen_env_def try_generate_def handle_response_def)

lemma demo_background_402:
  "generate_background (demo_gen_env 402) p 1024 1024 =
     (None, Some ''Stable Diffusion 3.5 Medium model is not accessible. Your credits may have ended. Please check your Stability AI account balance.'')"
  by (simp add: generate_background_def demo_gen_env_def try_generate_def handle_response_def)

lemma demo_fatal:
  "fatal_at (demo_app_env demo_status) (i, p) = (i = 2)"
  by (simp add: fatal_at_def demo_app_env_def demo_status_def demo_background_200
      demo_background_429 demo_background_402 is_credits_error_def str_lower_def
      lower_char_def)

lemma demo_succeeds:
  "succeeds_at (demo_app_env demo_status) demo_image demo_image [''x''] (i, p)
     = (i \<noteq> 1 \<and> i \<noteq> 2)"
  by (simp add: succeeds_at_def demo_app_env_def demo_status_def demo_background_200
      demo_background_429 demo_background_402 make_variation_def caption_for_def)

text \<open>
  At a run of four prompts whose calls meet the statuses 200, 429, 402 and 200: the second
  variation is skipped and recorded, the third ends the run, the fourth is never asked for.
\<close>

theorem credits_failure_aborts_witness:
  "\<exists>s'. variation_loop (demo_app_env demo_status) demo_image demo_image [''x''] 4
          [(0, ''a''), (1, ''b''), (2, ''c''), (3, ''d'')] demo_state = Stop s' \<and>
        calls (trace s') = [0, 1, 2] \<and>
        failed_generations s' = [2, 3] \<and>
        map variation_num (composites s') = [1]"
  using credits_failure_aborts_other_failures_skip
    [of "demo_app_env demo_status" demo_image demo_image "[''x'']" 4
        "[(0, ''a''), (1, ''b''), (2, ''c''), (3, ''d'')]" demo_state]
  by (simp add: demo_fatal demo_succeeds attempted_Cons attempted_Nil demo_state_def
      eval_nat_numeral del: variation_loop.simps)

section \<open>Properties of the run\<close>

lemma step_all_fail:
  assumes "background_fails env ip"
    and "\<not> packaging_reached (trace s)" and "\<not> archive_offered (trace s)"
    and "composites s = []"
  shows "case variation_step env P Lg caps n ip s of
           Stop s' \<Rightarrow> reports_failure (trace s') \<and> \<not> packaging_reached (trace s') \<and>
                      \<not> archive_offered (trace s')
         | Done s' \<Rightarrow> composites s' = [] \<and> \<not> packaging_reached (trace s') \<and>
                      \<not> archive_offered (trace s')"
  using assms
  by (auto simp: variation_step_def Let_def reports_failure_def packaging_reached_def
        archive_offered_def background_fails_def
      split: prod.splits option.splits)

lemma loop_all_fail:
  "list_all (background_fails env) ips \<Longrightarrow>
   \<not> packaging_reached (trace s) \<Longrightarrow> \<not> archive_offered (trace s) \<Longrightarrow>
   composites s = [] \<Longrightarrow>
   (case variation_loop env P Lg caps n ips s of
      Stop s' \<Rightarrow> reports_failure (trace s') \<and> \<not> packaging_reached (trace s') \<and>
                 \<not> archive_offered (trace s')
    | Done s' \<Rightarrow> composites s' = [] \<and> \<not> packaging_reached (trace s') \<and>
                 \<not> archive_offered (trace s'))"
proof (induction ips arbitrary: s)
  case Nil
  then show ?case by simp
next
  case (Cons ip ips)
  from Cons.prems have "background_fails env ip" and rest: "list_all (background_fails env) ips"
    by simp_all
  from step_all_fail [OF this(1) Cons.prems(2-4), of P Lg caps n]
  show ?case
    by (cases "variation_step env P Lg caps n ip s") (auto intro: Cons.IH [OF rest])
qed

lemma after_loop_empty:
  "composites s = [] \<Longrightarrow> \<not> packaging_reached (trace s) \<Longrightarrow> \<not> archive_offered (trace s) \<Longrightarrow>
   \<exists>tr. after_loop env s = Stopped tr \<and> reports_failure tr \<and> \<not> packaging_reached tr \<and>
        \<not> archive_offered tr"
  by (auto simp: after_loop_def Let_def reports_failure_def packaging_reached_def
        archive_offered_def)

lemma after_loop_packaging:
  "\<not> packaging_reached (trace s) \<Longrightarrow> packaging_reached (events_of (after_loop env s)) \<Longrightarrow>
   composites s \<noteq> []"
  by (auto simp: after_loop_def Let_def packaging_reached_def)

lemma campaign_all_fail:
  assumes "list_all (background_fails env) (background_calls env)"
  shows "\<exists>tr. (generate_campaign env pf lf = Stopped tr \<or> generate_campaign env pf lf = Crashed tr) \<and>
     reports_failure tr \<and> \<not> packaging_reached tr \<and> \<not> archive_offered tr"
proof (cases "load_images env pf lf")
  case (Inl e)
  then show ?thesis
    by (simp add: generate_campaign_def crash_def reports_failure_def packaging_reached_def
        archive_offered_def)
next
  case (Inr pl)
  obtain P Lg where pl: "pl = (P, Lg)" by (cases pl)
  define prompts where "prompts = prompts_for env (product_description env) (num_variations env)"
  define caps where "caps = captions_for env (product_description env) (num_variations env)"
  define s0 where "s0 = \<lparr>composites = [], failed_generations = [],
     trace = [Status ''Loading images...'', Status ''Generating creative prompts with AI...'',
              Status ''Generating ad captions...'',
              Status ''Generating backgrounds and creating composites...'']\<rparr>"
  have s0: "\<not> packaging_reached (trace s0)" "\<not> archive_offered (trace s0)" "composites s0 = []"
    by (simp_all add: s0_def packaging_reached_def archive_offered_def)
  have fails: "list_all (background_fails env) (enumerate prompts)"
    using assms by (simp add: background_calls_def prompts_def)
  show ?thesis
  proof (cases "prompts = [] \<or> caps = []")
    case True
    then show ?thesis using Inr pl
      by (auto simp: generate_campaign_def Let_def prompts_def caps_def reports_failure_def
          packaging_reached_def archive_offered_def)
  next
    case False
    have eq: "generate_campaign env pf lf =
      (case variation_loop env P Lg caps (length prompts) (enumerate prompts) s0 of
         Stop s \<Rightarrow> Stopped (trace s) | Done s \<Rightarrow> after_loop env s)"
      using False Inr pl
      by (simp add: generate_campaign_def Let_def prompts_def caps_def s0_def)
    from loop_all_fail [OF fails s0, of P Lg caps "length prompts"]
    show ?thesis
      unfolding eq
      by (cases "variation_loop env P Lg caps (length prompts) (enumerate prompts) s0")
         (auto dest: after_loop_empty [of _ env])
  qed
qed

lemma run_all_fail:
  assumes "list_all (background_fails env) (background_calls env)"
  shows "\<exists>tr. (run env = Stopped tr \<or> run env = Crashed tr) \<and>
     reports_failure tr \<and> \<not> packaging_reached tr \<and> \<not> archive_offered tr"
proof (cases "validate env")
  case (Some msg)
  then show ?thesis
    by (simp add: run_def reports_failure_def packaging_reached_def archive_offered_def)
next
  case None
  then obtain pf lf where "product_image_file env = Some pf" "logo_image_file env = Some lf"
    by (auto simp: validate_def split: if_splits)
  with None show ?thesis
    using campaign_all_fail [OF assms, of pf lf] by (simp add: run_def)
qed

text \<open>
  C9. When every call of the background generator in the loop fails, the run ends stopped
  or in its handler, its last event reports the failure, and the packaging step is not
  reached and no archive is offered. The packaging step follows the loop only from a state
  with at least one composite.
\<close>

theorem zero_successes_no_archive:
  "(list_all (background_fails env) (background_calls env) \<longrightarrow>
      (\<exists>tr. (run env = Stopped tr \<or> run env = Crashed tr) \<and> reports_failure tr \<and>
            \<not> packaging_reached tr \<and> \<not> archive_offered tr)) \<and>
   (\<not> packaging_reached (trace s) \<and> packaging_reached (events_of (after_loop env s)) \<longrightarrow>
      composites s \<noteq> [])"
  using run_all_fail [of env] after_loop_packaging [of s env] by blast

lemma demo_all_fail:
  "list_all (background_fails (demo_app_env (\<lambda>i. 429))) (background_calls (demo_app_env (\<lambda>i. 429)))"
  by (simp add: background_fails_def background_calls_def demo_app_env_def enumerate_def
      demo_background_429)

lemma demo_packaging:
  "\<not> packaging_reached (trace demo_done_state) \<and>
   packaging_reached (events_of (after_loop (demo_app_env (\<lambda>i. 200)) demo_done_state))"
  by (simp add: demo_done_state_def packaging_reached_def after_loop_def Let_def
      build_zip_def demo_app_env_def)

text \<open>
  At a run of three prompts whose calls all meet status 429 the run stops on the report
  that no variation could be generated; a state with one composite reaches the packaging
  step.
\<close>

theorem zero_successes_no_archive_witness:
  "list_all (background_fails (demo_app_env (\<lambda>i. 429)))
     (background_calls (demo_app_env (\<lambda>i. 429))) \<and>
   (\<exists>tr. (run (demo_app_env (\<lambda>i. 429)) = Stopped tr \<or> run (demo_app_env (\<lambda>i. 429)) = Crashed tr) \<and>
      reports_failure tr \<and> \<not> packaging_reached tr \<and> \<not> archive_offered tr) \<and>
   \<not> packaging_reached (trace demo_done_state) \<and>
   packaging_reached (events_of (after_loop (demo_app_env (\<lambda>i. 200)) demo_done_state)) \<and>
   composites demo_done_state \<noteq> []"
  using zero_successes_no_archive [of "demo_app_env (\<lambda>i. 429)" demo_done_state]
    zero_successes_no_archive [of "demo_app_env (\<lambda>i. 200)" demo_done_state]
    demo_all_fail demo_packaging
  by blast

section \<open>Properties of generate\_prompts\<close>

lemma fill_prompts_length:
  "length (fill_prompts base_prompts prompts num_prompts) =
     (if int (length prompts) < num_prompts then nat num_prompts else length prompts)"
proof (induction base_prompts prompts num_prompts rule: fill_prompts.induct)
  case (1 base_prompts prompts num_prompts)
  show ?case
  proof (cases "int (length prompts) < num_prompts")
    case True
    then show ?thesis
      using "1.IH" [OF True refl refl refl]
      by (subst fill_prompts.simps) (auto simp: Let_def)
  next
    case False
    then show ?thesis by (subst fill_prompts.simps) simp
  qed
qed

lemma ensure_count_length:
  "length (ensure_count description prompts num_prompts) =
     (if int (length prompts) < num_prompts then nat num_prompts else length prompts)"
  by (simp add: ensure_count_def Let_def fill_prompts_length)

lemma slice_ensure_count_length:
  "0 \<le> num_prompts \<Longrightarrow>
   length (slice_to (ensure_count description prompts num_prompts) num_prompts) = nat num_prompts"
  by (auto simp: slice_to_def ensure_count_length)

lemma call_gemini_raises_Exception:
  "call_gemini env prompt = Inl e \<Longrightarrow> \<exists>m. e = Exception m"
  by (auto simp: call_gemini_def split: if_splits sum.splits exn.splits)

text \<open>
  C8, as the code has it. For a count that is not negative, a call of the model that
  returns a non-empty text yields exactly that many prompts; a call that returns the empty
  text yields the empty list; a call that fails in any way yields the templated strings
  built from the description.
\<close>

theorem generate_prompts_count:
  "(0 \<le> num_prompts \<and> call_gemini env (prompt_request description num_prompts) = Inr response_text
      \<and> response_text \<noteq> [] \<longrightarrow>
        length (generate_prompts env description num_prompts) = nat num_prompts) \<and>
   (call_gemini env (prompt_request description num_prompts) = Inr [] \<longrightarrow>
        generate_prompts env description num_prompts = []) \<and>
   (call_gemini env (prompt_request description num_prompts) = Inl e \<longrightarrow>
        generate_prompts env description num_prompts = fallback_prompts description)"
  by (simp add: generate_prompts_def slice_ensure_count_length)

lemma demo_call:
  "call_gemini (demo_text_env answer) prompt = Inr (str_strip answer)"
  by (simp add: call_gemini_def demo_text_env_def gemini_try_def first_candidate_def
      candidate_text_def dict_get_def)

lemma demo_call_down:
  "call_gemini demo_text_env_down prompt = Inl (Exception ''Gemini network error: connection refused'')"
  by (simp add: call_gemini_def demo_text_env_down_def gemini_try_def)

text \<open>
  The claim as stated fails: an answer of white space only gives no prompt at all where
  five were asked for, and an unreachable model gives five prompts where seven were asked
  for.
\<close>

theorem generate_prompts_count_counterexample:
  "generate_prompts (demo_text_env '' '') ''a red mountain bike'' 5 = [] \<and>
   length (generate_prompts demo_text_env_down ''a red mountain bike'' 7) = 5"
  by (simp add: generate_prompts_def demo_call demo_call_down str_strip_def is_space_def
      fallback_prompts_def)


lemma demo_answer_strip: "str_strip demo_answer = demo_answer"
  by (simp add: demo_answer_def str_strip_def is_space_def newline_def)

lemma demo_parse:
  "parse_prompts demo_answer = [''A minimalist white studio'', ''A vibrant urban street scene'']"
  by (simp add: parse_prompts_def demo_answer_strip)
     (simp add: demo_answer_def newline_def List.map_filter_def parse_line_def str_strip_def
        is_space_def strip_numbering_def after_marker_def bullet_def is_digit_def
        strip_markdown_def Let_def)

lemma demo_generate_prompts:
  "generate_prompts (demo_text_env demo_answer) ''a red mountain bike'' 3 =
     [''A minimalist white studio'', ''A vibrant urban street scene'',
      ''A minimalist white studio, variation 1'']"
  by (simp add: generate_prompts_def demo_call demo_answer_strip demo_parse ensure_count_def
        slice_to_def fill_prompts.simps str_nat.simps)
     (simp add: demo_answer_def)

text \<open>
  Three runs: a response of two numbered lines with three prompts asked for, a response of
  white space, and an unreachable model.
\<close>

theorem generate_prompts_count_witness:
  "(0::int) \<le> 3 \<and>
   call_gemini (demo_text_env demo_answer) (prompt_request ''a red mountain bike'' 3)
     = Inr demo_answer \<and>
   demo_answer \<noteq> [] \<and>
   length (generate_prompts (demo_text_env demo_answer) ''a red mountain bike'' 3) = nat 3 \<and>
   call_gemini (demo_text_env '' '') (prompt_request ''a red mountain bike'' 5) = Inr [] \<and>
   generate_prompts (demo_text_env '' '') ''a red mountain bike'' 5 = [] \<and>
   call_gemini demo_text_env_down (prompt_request ''a red mountain bike'' 7)
     = Inl (Exception ''Gemini network error: connection refused'') \<and>
   generate_prompts demo_text_env_down ''a red mountain bike'' 7
     = fallback_prompts ''a red mountain bike''"
proof -
  have c1: "call_gemini (demo_text_env demo_answer) (prompt_request ''a red mountain bike'' 3)
     = Inr demo_answer"
    by (simp add: demo_call demo_answer_strip)
  have n1: "demo_answer \<noteq> []" by (simp add: demo_answer_def)
  have c2: "call_gemini (demo_text_env '' '') (prompt_request ''a red mountain bike'' 5) = Inr []"
    by (simp add: demo_call str_strip_def is_space_def)
  note c3 = demo_call_down [of "prompt_request ''a red mountain bike'' 7"]
  from generate_prompts_count
         [of 3 "demo_text_env demo_answer" "''a red mountain bike''" demo_answer]
       generate_prompts_count [of 5 "demo_text_env '' ''" "''a red mountain bike''"]
       generate_prompts_count [of 7 demo_text_env_down "''a red mountain bike''" _
          "Exception ''Gemini network error: connection refused''"]
       c1 n1 c2 c3
  show ?thesis by simp
qed

section \<open>Sums\<close>

lemma sum_bind_Inr:
  "sum_bind m f = Inr v \<Longrightarrow> \<exists>u. m = Inr u \<and> f u = Inr v"
  by (cases m) (simp_all add: sum_bind_def)

section \<open>Properties of \_paste\_with\_alpha\<close>

lemma div255_opaque: "n < 256 \<Longrightarrow> div255 (n * 255) = n"
  unfolding div255_def shift_for_div255_def by arith

lemma blend8_opaque: "blend8 255 0 c = c"
proof -
  have "unat c < 256" using unsigned_less [of c, where ?'a = nat] by simp
  then show ?thesis by (simp add: blend8_def div255_opaque)
qed

lemma blend8_transparent: "blend8 0 0 c = 0"
  by (simp add: blend8_def div255_def shift_for_div255_def)

lemma composite_channel_opaque: "composite_channel 32640 0 s d = s"
proof -
  have n: "unat s < 256" using unsigned_less [of s, where ?'a = nat] by simp
  have "shift_for_div255 (unat s * 32640 + 128 * 128) div 128 = unat s"
    using n unfolding shift_for_div255_def by arith
  then show ?thesis by (simp add: composite_channel_def)
qed

lemma alpha_composite_pixel_transparent:
  "alpha src = 0 \<Longrightarrow> alpha_composite_pixel dst src = dst"
  by (simp add: alpha_composite_pixel_def)

lemma alpha_composite_pixel_opaque:
  "alpha src = 255 \<Longrightarrow> alpha_composite_pixel dst src = src"
  by (simp add: alpha_composite_pixel_def Let_def composite_channel_opaque shift_for_div255_def)


lemma paste_with_alpha_RGBA:
  assumes "mode overlay = RGBA"
  shows "paste_with_alpha pil base overlay position =
     alpha_composite base
       (new_image RGBA (width base, height base) transparent
          \<lparr>getpixel := (\<lambda>x y.
             if in_box position overlay x y then
               map_pixel2
                 (blend8 (alpha (getpixel overlay (x - fst position) (y - snd position))))
                 transparent (getpixel overlay (x - fst position) (y - snd position))
             else transparent)\<rparr>)"
  using assms
  by (simp add: paste_with_alpha_def paste_def Let_def sum_bind_def new_image_def
      is_mask_mode_def paste_pixel_def cong: if_cong)

lemma temp_pixel_opaque:
  "alpha p = 255 \<Longrightarrow> map_pixel2 (blend8 255) transparent p = p"
  by (cases p) (simp add: map_pixel2_def transparent_def blend8_opaque)

lemma temp_pixel_transparent:
  "map_pixel2 (blend8 0) transparent p = transparent"
  by (simp add: map_pixel2_def transparent_def blend8_transparent)

lemma alpha_transparent [simp]: "alpha transparent = 0"
  by (simp add: transparent_def)

text \<open>
  C6. For an overlay in mode RGBA: on a base in mode RGBA \_paste\_with\_alpha returns an
  image; in whatever it returns, a pixel under an overlay pixel of alpha 255 is that
  overlay pixel, and a pixel that lies outside the overlay or under an overlay pixel of
  alpha 0 is the pixel of the base. So a fully transparent overlay leaves the base as it
  was.
\<close>

theorem paste_with_alpha_over:
  assumes "mode overlay = RGBA"
  shows "(mode base = RGBA \<longrightarrow> (\<exists>res. paste_with_alpha pil base overlay position = Inr res)) \<and>
    (\<forall>res x y. paste_with_alpha pil base overlay position = Inr res \<longrightarrow>
       (in_box position overlay x y \<and>
        alpha (getpixel overlay (x - fst position) (y - snd position)) = 255 \<longrightarrow>
          getpixel res x y = getpixel overlay (x - fst position) (y - snd position)) \<and>
       (\<not> in_box position overlay x y \<or>
        alpha (getpixel overlay (x - fst position) (y - snd position)) = 0 \<longrightarrow>
          getpixel res x y = getpixel base x y))"
  unfolding paste_with_alpha_RGBA [OF assms]
  by (auto simp: alpha_composite_def new_image_def temp_pixel_opaque temp_pixel_transparent
        alpha_composite_pixel_opaque alpha_composite_pixel_transparent
      split: if_splits)

text \<open>
  On a grey base of two pixels, under an overlay whose left pixel is opaque and whose right
  pixel is transparent: the left pixel becomes the overlay's, the right one stays grey.
\<close>

theorem paste_with_alpha_over_witness:
  "mode demo_overlay = RGBA \<and> mode demo_base = RGBA \<and>
   (\<exists>res. paste_with_alpha demo_pil demo_base demo_overlay (0, 0) = Inr res \<and>
      in_box (0, 0) demo_overlay 0 0 \<and> alpha (getpixel demo_overlay 0 0) = 255 \<and>
      getpixel res 0 0 = scarlet \<and>
      in_box (0, 0) demo_overlay 1 0 \<and> alpha (getpixel demo_overlay 1 0) = 0 \<and>
      getpixel res 1 0 = grey)"
proof -
  have m: "mode demo_overlay = RGBA" "mode demo_base = RGBA"
    by (simp_all add: demo_overlay_def demo_base_def new_image_def)
  have px: "in_box (0, 0) demo_overlay 0 0" "alpha (getpixel demo_overlay 0 0) = 255"
    "in_box (0, 0) demo_overlay 1 0" "alpha (getpixel demo_overlay 1 0) = 0"
    "getpixel demo_overlay 0 0 = scarlet" "getpixel demo_base 1 0 = grey"
    by (simp_all add: demo_overlay_def in_box_def scarlet_def demo_base_def new_image_def)
  note inst = paste_with_alpha_over [OF m(1), of demo_base demo_pil "(0, 0)"]
  from inst m(2) obtain res where
    res: "paste_with_alpha demo_pil demo_base demo_overlay (0, 0) = Inr res" by blast
  from inst res px have "getpixel res 0 0 = scarlet" "getpixel res 1 0 = grey"
    by simp_all
  with m px res show ?thesis by blast
qed


section \<open>Properties of the compositor\<close>

lemma convert_shape:
  "convert pil im m = Inr im2 \<Longrightarrow> width im2 = width im \<and> height im2 = height im \<and> mode im2 = m"
  by (auto simp: convert_def copy_def split: if_splits dest!: sum_bind_Inr)

lemma alpha_composite_shape:
  "alpha_composite im1 im2 = Inr res \<Longrightarrow>
   width res = width im1 \<and> height res = height im1 \<and> mode res = RGBA"
  by (auto simp: alpha_composite_def split: if_splits)

lemma paste_with_alpha_shape:
  "paste_with_alpha pil base overlay position = Inr res \<Longrightarrow>
   width res = width base \<and> height res = height base \<and> mode res = RGBA"
  by (auto simp: paste_with_alpha_def Let_def dest!: sum_bind_Inr alpha_composite_shape)

lemma create_composite_Inr:
  assumes "create_composite pil background product logo product_size_ratio logo_size_ratio
             = Inr result"
  obtains background2 product_resized product_xy composite2 logo_resized logo_xy where
    "(if mode background \<noteq> RGBA then convert pil background RGBA else Inr background)
       = Inr background2"
    "paste_with_alpha pil (copy background2) product_resized product_xy = Inr composite2"
    "paste_with_alpha pil composite2 logo_resized logo_xy = Inr result"
  using assms that unfolding create_composite_def Let_def
  by (auto simp: sum_bind_def split: sum.splits)

text \<open>
  C2. Whenever create\_composite returns an image, that image has the width and the height
  of the background it was given and is in mode RGBA.
\<close>

theorem create_composite_size_mode:
  assumes "create_composite pil background product logo product_size_ratio logo_size_ratio
             = Inr result"
  shows "width result = width background \<and> height result = height background \<and>
         mode result = RGBA"
proof -
  from assms obtain background2 product_resized product_xy composite2 logo_resized logo_xy
    where b2: "(if mode background \<noteq> RGBA then convert pil background RGBA
                else Inr background) = Inr background2"
      and p1: "paste_with_alpha pil (copy background2) product_resized product_xy
                 = Inr composite2"
      and p2: "paste_with_alpha pil composite2 logo_resized logo_xy = Inr result"
    by (rule create_composite_Inr)
  have size2: "width background2 = width background \<and> height background2 = height background"
    using b2 by (auto split: if_splits dest: convert_shape)
  from paste_with_alpha_shape [OF p1] paste_with_alpha_shape [OF p2] size2
  show ?thesis by (simp add: copy_def)
qed

section \<open>Properties of the float arithmetic\<close>

lemma pow2_pos [simp]: "0 < pow2 k"
  by (simp add: pow2_def)

lemma pow2_add: "pow2 (i + j) = pow2 i * pow2 j"
  by (simp add: pow2_def power_int_add)

lemma pow2_diff: "pow2 (i - j) = pow2 i / pow2 j"
  by (simp add: pow2_def power_int_diff)

lemma pow2_0 [simp]: "pow2 0 = 1"
  by (simp add: pow2_def)

lemma pow2_nat: "0 \<le> k \<Longrightarrow> pow2 k = 2 ^ nat k"
  by (simp add: pow2_def power_int_def)

lemma pow2_neg: "k \<le> 0 \<Longrightarrow> pow2 k = 1 / 2 ^ nat (- k)"
  by (cases "k = 0") (simp_all add: pow2_def power_int_def inverse_eq_divide power_one_over)

lemma pow2_Suc: "pow2 (k + 1) = 2 * pow2 k"
  by (simp add: pow2_def power_int_add_1)

lemma pow2_mono: "i \<le> j \<Longrightarrow> pow2 i \<le> pow2 j"
  by (simp add: pow2_def power_int_increasing)

lemma pow2_strict_mono: "i < j \<Longrightarrow> pow2 i < pow2 j"
  by (simp add: pow2_def power_int_strict_increasing)

lemma pow2_le_iff: "pow2 i \<le> pow2 j \<longleftrightarrow> i \<le> j"
  by (meson linorder_not_less pow2_mono pow2_strict_mono)

lemma pow2_less_iff: "pow2 i < pow2 j \<longleftrightarrow> i < j"
  by (meson linorder_not_less pow2_mono pow2_strict_mono)

lemma binade_bounds:
  assumes "0 < x"
  shows "pow2 (binade x) \<le> x" and "x < pow2 (binade x + 1)"
proof -
  obtain p q where pq: "quotient_of x = (p, q)" by force
  have q: "0 < q" using quotient_of_denom_pos [OF pq] .
  have x: "x = of_int p / of_int q" using quotient_of_div [OF pq] .
  have p: "0 < p" using assms q x by (simp add: zero_less_divide_iff)
  define bp where "bp = bitlen p"
  define bq where "bq = bitlen q"
  have bp: "1 \<le> bp" "2 ^ nat (bp - 1) \<le> p" "p < 2 ^ nat bp"
    using bitlen_bounds [OF p] p by (auto simp: bp_def bitlen_alt_def)
  have bq: "1 \<le> bq" "2 ^ nat (bq - 1) \<le> q" "q < 2 ^ nat bq"
    using bitlen_bounds [OF q] q by (auto simp: bq_def bitlen_alt_def)
  have "(of_int (2 ^ nat (bp - 1)) :: rat) \<le> of_int p" "(of_int p :: rat) < of_int (2 ^ nat bp)"
    using bp(2,3) by (simp_all only: of_int_le_iff of_int_less_iff)
  then have P1: "pow2 (bp - 1) \<le> of_int p" and P2: "of_int p < pow2 bp"
    using bp(1) by (simp_all add: pow2_nat)
  have "(of_int (2 ^ nat (bq - 1)) :: rat) \<le> of_int q" "(of_int q :: rat) < of_int (2 ^ nat bq)"
    using bq(2,3) by (simp_all only: of_int_le_iff of_int_less_iff)
  then have Q1: "pow2 (bq - 1) \<le> of_int q" and Q2: "of_int q < pow2 bq"
    using bq(1) by (simp_all add: pow2_nat)
  have qpos: "(0::rat) < of_int q" using q by simp
  have up: "x < pow2 (bp - bq + 1)"
  proof -
    have "of_int p < pow2 bp" by fact
    also have "pow2 bp = pow2 (bp - bq + 1) * pow2 (bq - 1)"
      by (simp flip: pow2_add)
    also have "\<dots> \<le> pow2 (bp - bq + 1) * of_int q"
      using Q1 by (simp add: mult_left_mono)
    finally show ?thesis using qpos by (simp add: x pos_divide_less_eq)
  qed
  have lo: "pow2 (bp - bq - 1) < x"
  proof -
    have "pow2 (bp - bq - 1) * of_int q < pow2 (bp - bq - 1) * pow2 bq"
      using Q2 by (simp add: mult_strict_left_mono)
    also have "\<dots> = pow2 (bp - 1)" by (simp flip: pow2_add)
    also have "\<dots> \<le> of_int p" by fact
    finally show ?thesis using qpos by (simp add: x pos_less_divide_eq)
  qed
  have bin: "binade x = (if pow2 (bp - bq) \<le> x then bp - bq else bp - bq - 1)"
    by (simp add: binade_def pq bp_def bq_def Let_def)
  show "pow2 (binade x) \<le> x" using lo by (simp add: bin)
  show "x < pow2 (binade x + 1)"
    using up by (auto simp: bin not_le)
qed

lemma binade_unique:
  assumes "pow2 e \<le> x" "x < pow2 (e + 1)"
  shows "binade x = e"
proof -
  have x: "0 < x" using assms(1) pow2_pos [of e] by linarith
  have "pow2 (binade x) < pow2 (e + 1)"
    using binade_bounds(1) [OF x] assms(2) by linarith
  moreover have "pow2 e < pow2 (binade x + 1)"
    using binade_bounds(2) [OF x] assms(1) by linarith
  ultimately show ?thesis by (simp add: pow2_less_iff)
qed


lemma round_half_even_of_int [simp]: "round_half_even (of_int k) = k"
  by (simp add: round_half_even_def)

lemma round_half_even_error: "\<bar>of_int (round_half_even q) - q\<bar> \<le> 1 / 2"
proof -
  have "of_int \<lfloor>q\<rfloor> \<le> q" "q < of_int \<lfloor>q\<rfloor> + 1" by linarith+
  then show ?thesis
    by (auto simp: round_half_even_def Let_def abs_le_iff)
qed

lemma round_half_even_ge: "of_int k \<le> q \<Longrightarrow> k \<le> round_half_even q"
proof -
  assume "of_int k \<le> q"
  then have "k \<le> \<lfloor>q\<rfloor>" by (simp add: le_floor_iff)
  then show ?thesis by (auto simp: round_half_even_def Let_def)
qed

lemma round_half_even_le: "q \<le> of_int k \<Longrightarrow> round_half_even q \<le> k"
proof -
  assume le: "q \<le> of_int k"
  show ?thesis
  proof (cases "q = of_int k")
    case True
    then show ?thesis by simp
  next
    case False
    with le have "q < of_int k" by simp
    then have "\<lfloor>q\<rfloor> < k" by (simp add: floor_less_iff)
    then show ?thesis by (auto simp: round_half_even_def Let_def)
  qed
qed

lemma round_half_even_near:
  assumes "\<bar>q - of_int k\<bar> < 1 / 2"
  shows "round_half_even q = k"
proof -
  have "\<bar>of_int (round_half_even q) - q\<bar> \<le> 1 / 2" by (rule round_half_even_error)
  with assms have "\<bar>(of_int (round_half_even q) :: rat) - of_int k\<bar> < 1" by linarith
  then have "\<bar>round_half_even q - k\<bar> < 1"
    by (metis of_int_1 of_int_abs of_int_diff of_int_less_iff)
  then show ?thesis by linarith
qed

lemma round_half_even_mono: "p \<le> q \<Longrightarrow> round_half_even p \<le> round_half_even q"
proof -
  assume pq: "p \<le> q"
  show ?thesis
  proof (cases "\<lfloor>p\<rfloor> = \<lfloor>q\<rfloor>")
    case True
    with pq show ?thesis by (auto simp: round_half_even_def Let_def)
  next
    case False
    with pq have "\<lfloor>p\<rfloor> + 1 \<le> \<lfloor>q\<rfloor>" using floor_mono [OF pq] by linarith
    moreover have "round_half_even p \<le> \<lfloor>p\<rfloor> + 1" by (auto simp: round_half_even_def Let_def)
    moreover have "\<lfloor>q\<rfloor> \<le> round_half_even q" by (auto simp: round_half_even_def Let_def)
    ultimately show ?thesis by linarith
  qed
qed

lemma ulp_pos [simp]: "0 < ulp x"
  by (simp add: ulp_def)

lemma ulp_nonneg [simp]: "0 \<le> ulp x"
  by (rule less_imp_le [OF ulp_pos])

lemma abs_ulp [simp]: "\<bar>ulp x\<bar> = ulp x"
  by simp

lemma ulp_neq0 [simp]: "ulp x \<noteq> 0"
  by (metis ulp_pos less_irrefl)

lemma ulp_eq:
  assumes "pow2 e \<le> \<bar>x\<bar>" "\<bar>x\<bar> < pow2 (e + 1)" "- 1022 \<le> e"
  shows "ulp x = pow2 (e - 52)"
  using binade_unique [OF assms(1,2)] assms(3) by (simp add: ulp_def max_def)

lemma round_double_eq:
  assumes "pow2 e \<le> \<bar>x\<bar>" "\<bar>x\<bar> < pow2 (e + 1)" "- 1022 \<le> e"
  shows "round_double x = of_int (round_half_even (x / pow2 (e - 52))) * pow2 (e - 52)"
proof -
  have "0 < \<bar>x\<bar>" using assms(1) pow2_pos [of e] by linarith
  then have "x \<noteq> 0" by simp
  then show ?thesis by (simp add: round_double_def ulp_eq [OF assms])
qed

lemma round_double_error: "\<bar>round_double x - x\<bar> \<le> ulp x / 2"
proof (cases "x = 0")
  case True
  then show ?thesis using ulp_pos [of 0] by (simp add: round_double_def less_imp_le)
next
  case False
  have "\<bar>of_int (round_half_even (x / ulp x)) - x / ulp x\<bar> \<le> 1 / 2"
    by (rule round_half_even_error)
  then have "\<bar>of_int (round_half_even (x / ulp x)) - x / ulp x\<bar> * ulp x \<le> 1 / 2 * ulp x"
    by (rule mult_right_mono) (rule less_imp_le [OF ulp_pos])
  moreover have "\<bar>of_int (round_half_even (x / ulp x)) - x / ulp x\<bar> * ulp x
      = \<bar>of_int (round_half_even (x / ulp x)) * ulp x - x\<bar>"
  proof -
    have "\<bar>of_int (round_half_even (x / ulp x)) - x / ulp x\<bar> * ulp x
       = \<bar>(of_int (round_half_even (x / ulp x)) - x / ulp x) * ulp x\<bar>"
      by (simp add: abs_mult)
    also have "(of_int (round_half_even (x / ulp x)) - x / ulp x) * ulp x
       = of_int (round_half_even (x / ulp x)) * ulp x - x"
      using ulp_pos [of x] by (simp add: left_diff_distrib)
    finally show ?thesis .
  qed
  ultimately show ?thesis using False by (simp add: round_double_def)
qed

lemma ulp_le:
  assumes "pow2 (- 1022) \<le> \<bar>x\<bar>"
  shows "ulp x \<le> \<bar>x\<bar> * pow2 (- 52)"
proof -
  have pos: "0 < \<bar>x\<bar>" using assms pow2_pos [of "- 1022"] by linarith
  have "pow2 (- 1022) < pow2 (binade \<bar>x\<bar> + 1)"
    using binade_bounds(2) [OF pos] assms by linarith
  then have "- 1022 \<le> binade \<bar>x\<bar>" by (simp add: pow2_less_iff)
  then have "ulp x = pow2 (binade \<bar>x\<bar>) * pow2 (- 52)"
    by (simp add: ulp_def max_def flip: pow2_add)
  also have "\<dots> \<le> \<bar>x\<bar> * pow2 (- 52)"
    using binade_bounds(1) [OF pos] by (simp add: mult_right_mono)
  finally show ?thesis .
qed

lemma round_double_rel_error:
  assumes "pow2 (- 1022) \<le> \<bar>x\<bar>"
  shows "\<bar>round_double x - x\<bar> \<le> \<bar>x\<bar> * pow2 (- 53)"
proof -
  have "\<bar>round_double x - x\<bar> \<le> ulp x / 2" by (rule round_double_error)
  also have "\<dots> \<le> \<bar>x\<bar> * pow2 (- 52) / 2" using ulp_le [OF assms] by simp
  also have "\<dots> = \<bar>x\<bar> * pow2 (- 53)"
    using pow2_Suc [of "- 53"] by simp
  finally show ?thesis .
qed


lemma pow2_of_int: "0 \<le> k \<Longrightarrow> pow2 k = of_int (2 ^ nat k)"
  by (simp add: pow2_nat)

lemma pow2_neq0 [simp]: "pow2 k \<noteq> 0"
  by (metis pow2_pos less_irrefl)

lemma pow2_nonneg [simp]: "0 \<le> pow2 k"
  by (rule less_imp_le [OF pow2_pos])

lemma divide_pow2: "x / pow2 k = x * pow2 (- k)"
  by (simp add: pow2_def power_int_minus divide_inverse)

lemma pow2_cancel [simp]: "pow2 k * pow2 (- k) = 1" "pow2 (- k) * pow2 k = 1"
  by (simp_all flip: pow2_add)

lemma one_le_imp_binade_nonneg:
  assumes "1 \<le> x"
  shows "0 \<le> binade x"
proof -
  have x: "0 < x" using assms by linarith
  have "pow2 0 \<le> x" using assms by simp
  also have "x < pow2 (binade x + 1)" by (rule binade_bounds(2) [OF x])
  finally have "pow2 0 < pow2 (binade x + 1)" .
  then have "0 < binade x + 1" by (simp only: pow2_less_iff)
  then show ?thesis by linarith
qed

lemma of_int_less_pow2_53: "n < 2 ^ 53 \<Longrightarrow> (of_int n :: rat) < pow2 53"
proof -
  assume "n < 2 ^ 53"
  then have "(of_int n :: rat) < of_int (2 ^ 53)" by (simp only: of_int_less_iff)
  then show ?thesis by (simp add: pow2_def)
qed

lemma round_double_nonneg: "0 \<le> x \<Longrightarrow> 0 \<le> round_double x"
proof -
  assume "0 \<le> x"
  then have "(of_int 0 :: rat) \<le> x / ulp x" by simp
  then have "0 \<le> round_half_even (x / ulp x)" by (rule round_half_even_ge)
  then show ?thesis by (simp add: round_double_def)
qed

lemma binade_int_range:
  assumes "0 < n" "n < 2 ^ 53"
  shows "0 \<le> binade (of_int n)" "binade (of_int n) \<le> 52"
proof -
  have pos: "(0::rat) < of_int n" using assms by simp
  have "(1::rat) \<le> of_int n" using assms(1) by simp
  then show "0 \<le> binade (of_int n)" by (rule one_le_imp_binade_nonneg)
  have "pow2 (binade (of_int n)) \<le> of_int n" by (rule binade_bounds(1) [OF pos])
  also have "(of_int n :: rat) < pow2 53" by (rule of_int_less_pow2_53 [OF assms(2)])
  finally have "binade (of_int n) < 53" by (simp only: pow2_less_iff)
  then show "binade (of_int n) \<le> 52" by linarith
qed

lemma round_double_int:
  assumes "0 \<le> n" "n < 2 ^ 53"
  shows "round_double (of_int n) = of_int n"
proof (cases "n = 0")
  case True
  then show ?thesis by (simp add: round_double_def)
next
  case False
  with assms have n: "0 < n" by simp
  define e where "e = binade (of_int n)"
  have e: "0 \<le> e" "e \<le> 52" using binade_int_range [OF n assms(2)] by (simp_all add: e_def)
  have pos: "(0::rat) < of_int n" using n by simp
  have b: "pow2 e \<le> \<bar>of_int n\<bar>" "\<bar>of_int n :: rat\<bar> < pow2 (e + 1)"
    using binade_bounds [OF pos] pos by (simp_all add: e_def)
  have "- 1022 \<le> e" using e by simp
  from round_double_eq [OF b this]
  have rd: "round_double (of_int n) =
      of_int (round_half_even (of_int n / pow2 (e - 52))) * pow2 (e - 52)" .
  have q: "of_int n / pow2 (e - 52) = of_int (n * 2 ^ nat (52 - e))"
    using e by (simp add: divide_pow2 pow2_of_int)
  have "round_double (of_int n) = of_int (n * 2 ^ nat (52 - e)) * pow2 (e - 52)"
    unfolding rd q by (simp only: round_half_even_of_int)
  also have "\<dots> = (of_int n / pow2 (e - 52)) * pow2 (e - 52)"
    unfolding q ..
  also have "\<dots> = of_int n"
    by simp
  finally show ?thesis .
qed

lemma round_double_ge_int:
  assumes "0 < n" "n < 2 ^ 53" "of_int n \<le> x"
  shows "of_int n \<le> round_double x"
proof -
  have n1: "(1::rat) \<le> of_int n" using assms(1) by simp
  then have x1: "1 \<le> x" using assms(3) by linarith
  then have x: "0 < x" by linarith
  define e where "e = binade x"
  have b: "pow2 e \<le> \<bar>x\<bar>" "\<bar>x\<bar> < pow2 (e + 1)"
    using binade_bounds [OF x] x by (simp_all add: e_def)
  have e0: "0 \<le> e" unfolding e_def by (rule one_le_imp_binade_nonneg [OF x1])
  then have "- 1022 \<le> e" by simp
  from round_double_eq [OF b this]
  have rd: "round_double x = of_int (round_half_even (x / pow2 (e - 52))) * pow2 (e - 52)" .
  show ?thesis
  proof (cases "e \<le> 52")
    case True
    have q: "of_int n / pow2 (e - 52) = of_int (n * 2 ^ nat (52 - e))"
      using True by (simp add: divide_pow2 pow2_of_int)
    have "of_int n / pow2 (e - 52) \<le> x / pow2 (e - 52)"
      using assms(3) by (intro divide_right_mono less_imp_le [OF pow2_pos])
    then have "n * 2 ^ nat (52 - e) \<le> round_half_even (x / pow2 (e - 52))"
      unfolding q by (rule round_half_even_ge)
    then have "(of_int (n * 2 ^ nat (52 - e)) :: rat) \<le> of_int (round_half_even (x / pow2 (e - 52)))"
      by (simp only: of_int_le_iff)
    then have "of_int (n * 2 ^ nat (52 - e)) * pow2 (e - 52) \<le> round_double x"
      unfolding rd by (rule mult_right_mono) (rule less_imp_le [OF pow2_pos])
    moreover have "of_int (n * 2 ^ nat (52 - e)) * pow2 (e - 52) = of_int n"
      unfolding q [symmetric] by simp
    ultimately show ?thesis by (simp only:)
  next
    case False
    then have e53: "53 \<le> e" by simp
    have "pow2 52 = pow2 e / pow2 (e - 52)"
      using pow2_diff [of e "e - 52"] by simp
    also have "\<dots> \<le> x / pow2 (e - 52)"
      using b(1) x by (intro divide_right_mono less_imp_le [OF pow2_pos]) simp
    finally have "pow2 52 \<le> x / pow2 (e - 52)" .
    then have "(of_int (2 ^ 52) :: rat) \<le> x / pow2 (e - 52)"
      by (simp add: pow2_def)
    then have "2 ^ 52 \<le> round_half_even (x / pow2 (e - 52))"
      by (rule round_half_even_ge)
    then have "(of_int (2 ^ 52) :: rat) \<le> of_int (round_half_even (x / pow2 (e - 52)))"
      by (simp only: of_int_le_iff)
    then have "of_int (2 ^ 52) * pow2 (e - 52) \<le> round_double x"
      unfolding rd by (rule mult_right_mono) (rule less_imp_le [OF pow2_pos])
    moreover have "(of_int (2 ^ 52) :: rat) = pow2 52" by (simp add: pow2_def)
    moreover have "pow2 52 * pow2 (e - 52) = pow2 e"
      by (simp flip: pow2_add)
    moreover have "pow2 53 \<le> pow2 e" using e53 by (simp only: pow2_le_iff)
    moreover have "(of_int n :: rat) < pow2 53" by (rule of_int_less_pow2_53 [OF assms(2)])
    ultimately show ?thesis by simp
  qed
qed


lemma pow2_numeral [simp]:
  "pow2 (numeral k) = 2 ^ numeral k"
  "pow2 (- numeral k) = 1 / 2 ^ numeral k"
  "pow2 1 = 2"
  "pow2 (- 1) = 1 / 2"
  by (simp_all add: pow2_def power_int_def inverse_eq_divide power_one_over)

lemma round_double_eval:
  assumes "pow2 e \<le> \<bar>x\<bar>" "\<bar>x\<bar> < pow2 (e + 1)" "- 1022 \<le> e"
    and "\<bar>x / pow2 (e - 52) - of_int m\<bar> < 1 / 2"
  shows "round_double x = of_int m * pow2 (e - 52)"
  using round_double_eq [OF assms(1-3)] round_half_even_near [OF assms(4)] by simp

lemma lit_0_9_val: "lit_0_9 = 8106479329266893 / 9007199254740992"
  unfolding lit_0_9_def
  by (rule trans [OF round_double_eval [where e = "- 1" and m = 8106479329266893]]) simp_all

lemma default_product_size_ratio_val:
  "default_product_size_ratio = 3602879701896397 / 9007199254740992"
  unfolding default_product_size_ratio_def
  by (rule trans [OF round_double_eval [where e = "- 2" and m = 7205759403792794]]) simp_all

lemma default_logo_size_ratio_val:
  "default_logo_size_ratio = 5404319552844595 / 36028797018963968"
  unfolding default_logo_size_ratio_def
  by (rule trans [OF round_double_eval [where e = "- 3" and m = 5404319552844595]]) simp_all

lemma lit_0_05_val: "lit_0_05 = 3602879701896397 / 72057594037927936"
  unfolding lit_0_05_def
  by (rule trans [OF round_double_eval [where e = "- 5" and m = 7205759403792794]]) simp_all

lemma lit_0_02_val: "lit_0_02 = 5764607523034235 / 288230376151711744"
  unfolding lit_0_02_def
  by (rule trans [OF round_double_eval [where e = "- 6" and m = 5764607523034235]]) simp_all

lemma round_double_0 [simp]: "round_double 0 = 0"
  by (simp add: round_double_def)

lemma round_double_le_pow2:
  assumes "0 \<le> x" "x \<le> pow2 k" "- 1074 \<le> k"
  shows "round_double x \<le> pow2 k"
proof (cases "x = 0")
  case True
  then show ?thesis by simp
next
  case False
  with assms have x: "0 < x" by simp
  define e where "e = binade x"
  define j where "j = max e (- 1022) - 52"
  have "pow2 e \<le> x" using binade_bounds(1) [OF x] by (simp add: e_def)
  then have "pow2 e \<le> pow2 k" using assms(2) by linarith
  then have "e \<le> k" by (simp only: pow2_le_iff)
  then have jk: "j \<le> k" using assms(3) by (simp add: j_def)
  have u: "ulp x = pow2 j" using x by (simp add: ulp_def e_def j_def)
  have rd: "round_double x = of_int (round_half_even (x / pow2 j)) * pow2 j"
    using False by (simp add: round_double_def u)
  have "x / pow2 j \<le> pow2 k / pow2 j"
    using assms(2) by (intro divide_right_mono pow2_nonneg)
  also have "pow2 k / pow2 j = pow2 (k - j)" by (simp add: pow2_diff)
  also have "\<dots> = of_int (2 ^ nat (k - j))" using jk by (simp add: pow2_of_int)
  finally have "round_half_even (x / pow2 j) \<le> 2 ^ nat (k - j)"
    by (rule round_half_even_le)
  then have "(of_int (round_half_even (x / pow2 j)) :: rat) \<le> of_int (2 ^ nat (k - j))"
    by (simp only: of_int_le_iff)
  then have "round_double x \<le> of_int (2 ^ nat (k - j)) * pow2 j"
    unfolding rd by (rule mult_right_mono) (rule pow2_nonneg)
  also have "(of_int (2 ^ nat (k - j)) :: rat) = pow2 (k - j)"
    using jk by (simp add: pow2_of_int)
  also have "pow2 (k - j) * pow2 j = pow2 k" by (simp flip: pow2_add)
  finally show ?thesis .
qed

lemma to_double_ok:
  assumes "0 \<le> x" "x \<le> pow2 1000"
  shows "to_double x = Inr (round_double x)"
proof -
  have "round_double x \<le> pow2 1000"
    by (rule round_double_le_pow2 [OF assms]) simp
  moreover have "pow2 1000 < pow2 1024" by (simp only: pow2_less_iff)
  moreover have "0 \<le> round_double x" by (rule round_double_nonneg [OF assms(1)])
  ultimately have "\<bar>round_double x\<bar> < pow2 1024" by linarith
  then show ?thesis by (simp only: to_double_def if_True)
qed

lemma round_double_bounds:
  assumes "pow2 (- 1022) \<le> x"
  shows "x - x * pow2 (- 53) \<le> round_double x" "round_double x \<le> x + x * pow2 (- 53)"
proof -
  have x: "0 < x" using assms pow2_pos [of "- 1022"] by linarith
  then have "pow2 (- 1022) \<le> \<bar>x\<bar>" using assms by simp
  from round_double_rel_error [OF this] x
  have "\<bar>round_double x - x\<bar> \<le> x * pow2 (- 53)" by simp
  then show "x - x * pow2 (- 53) \<le> round_double x" "round_double x \<le> x + x * pow2 (- 53)"
    by linarith+
qed

lemma normal_ge: "pow2 (- 10) \<le> x \<Longrightarrow> pow2 (- 1022) \<le> x"
  using pow2_mono [of "- 1022" "- 10"] by linarith

section \<open>Properties of the sizes\<close>

lemma sum_bind_Inr_simp [simp]: "sum_bind (Inr v) f = f v"
  by (simp add: sum_bind_def)

lemma sum_bind_Inl_simp [simp]: "sum_bind (Inl e) f = Inl e"
  by (simp add: sum_bind_def)

lemma of_int_le_pow2_53: "n < 2 ^ 53 \<Longrightarrow> (of_int n :: rat) \<le> pow2 53"
  using of_int_less_pow2_53 [of n] by simp

lemma float_of_int_ok:
  assumes "0 \<le> n" "n < 2 ^ 53"
  shows "float_of_int n = Inr (of_int n)"
proof -
  have "(of_int n :: rat) \<le> pow2 53" by (rule of_int_le_pow2_53 [OF assms(2)])
  also have "pow2 53 \<le> pow2 1000" by (simp only: pow2_le_iff)
  finally have "to_double (of_int n) = Inr (round_double (of_int n))"
    using assms(1) by (intro to_double_ok) simp_all
  then show ?thesis by (simp add: float_of_int_def round_double_int [OF assms])
qed

lemma int_times_float_ok:
  assumes "0 \<le> n" "n < 2 ^ 53" "0 \<le> c" "c \<le> pow2 100"
  shows "int_times_float n c = Inr (round_double (of_int n * c))"
proof -
  have "of_int n * c \<le> pow2 53 * pow2 100"
    using assms by (intro mult_mono of_int_le_pow2_53) simp_all
  also have "\<dots> = pow2 153" by (simp flip: pow2_add)
  also have "\<dots> \<le> pow2 1000" by (simp only: pow2_le_iff)
  finally have "to_double (of_int n * c) = Inr (round_double (of_int n * c))"
    using assms by (intro to_double_ok) simp_all
  then show ?thesis
    by (simp add: int_times_float_def float_of_int_ok [OF assms(1,2)] float_mul_def)
qed

lemma int_over_float_ok:
  assumes "0 \<le> n" "n < 2 ^ 53" "pow2 (- 100) \<le> c"
  shows "int_over_float n c = Inr (round_double (of_int n / c))"
proof -
  have c: "0 < c" using assms(3) pow2_pos [of "- 100"] by linarith
  have "of_int n / c \<le> pow2 53 / pow2 (- 100)"
    using assms c by (intro frac_le of_int_le_pow2_53) simp_all
  also have "\<dots> = pow2 153" by (simp add: divide_pow2 flip: pow2_add)
  also have "\<dots> \<le> pow2 1000" by (simp only: pow2_le_iff)
  finally have "to_double (of_int n / c) = Inr (round_double (of_int n / c))"
    using assms c by (intro to_double_ok) simp_all
  then show ?thesis
    using c by (simp add: int_over_float_def float_of_int_ok [OF assms(1,2)] float_div_def)
qed

lemma int_true_div_ok:
  assumes "0 \<le> a" "a < 2 ^ 53" "0 < b"
  shows "int_true_div a b = Inr (round_double (of_int a / of_int b))"
proof -
  have b1: "(1::rat) \<le> of_int b" using assms(3) by simp
  have "of_int a / of_int b \<le> (of_int a :: rat) / 1"
    using assms(1) b1 by (intro divide_left_mono) simp_all
  also have "\<dots> \<le> pow2 53" using of_int_le_pow2_53 [OF assms(2)] by simp
  also have "\<dots> \<le> pow2 1000" by (simp only: pow2_le_iff)
  finally have "to_double (of_int a / of_int b) = Inr (round_double (of_int a / of_int b))"
    using assms by (intro to_double_ok) simp_all
  then show ?thesis using assms(3) by (simp add: int_true_div_def)
qed

lemma int_of_float_nonneg: "0 \<le> x \<Longrightarrow> int_of_float x = \<lfloor>x\<rfloor>"
  by (simp add: int_of_float_def)


lemma aspect_bounds:
  assumes "0 < a" "a < 2 ^ 24" "0 < b" "b < 2 ^ 24"
  defines "q \<equiv> (of_int a / of_int b :: rat)"
  shows "pow2 (- 24) \<le> q" "q \<le> pow2 24"
    "q - q * pow2 (- 53) \<le> round_double q" "round_double q \<le> q + q * pow2 (- 53)"
    "pow2 (- 25) \<le> round_double q" "round_double q \<le> pow2 25"
proof -
  have A: "(1::rat) \<le> of_int a" "(of_int a :: rat) \<le> 2 ^ 24"
    using assms(1,2) by (simp_all add: of_int_le_numeral_power_cancel_iff)
  have B: "(1::rat) \<le> of_int b" "(of_int b :: rat) \<le> 2 ^ 24"
    using assms(3,4) by (simp_all add: of_int_le_numeral_power_cancel_iff)
  have "1 / 2 ^ 24 \<le> (1::rat) / of_int b" using B by (intro divide_left_mono) simp_all
  also have "\<dots> \<le> q" unfolding q_def using A B by (intro divide_right_mono) simp_all
  finally show lo: "pow2 (- 24) \<le> q" by simp
  have "q \<le> of_int a / 1" unfolding q_def using A B by (intro divide_left_mono) simp_all
  then show hi: "q \<le> pow2 24" using A by simp
  have "pow2 (- 1022) \<le> pow2 (- 24)" by (simp only: pow2_le_iff)
  then have n: "pow2 (- 1022) \<le> q" using lo by linarith
  show b1: "q - q * pow2 (- 53) \<le> round_double q" by (rule round_double_bounds(1) [OF n])
  show b2: "round_double q \<le> q + q * pow2 (- 53)" by (rule round_double_bounds(2) [OF n])
  show "pow2 (- 25) \<le> round_double q" using b1 lo by simp
  show "round_double q \<le> pow2 25" using b2 hi by simp
qed



lemma trunc_quotient_close:
  assumes n: "0 \<le> n" "n < 2 ^ 24" and a: "0 < a" "a < 2 ^ 24" and b: "0 < b" "b < 2 ^ 24"
  defines "t \<equiv> \<lfloor>round_double (of_int n / round_double (of_int a / of_int b))\<rfloor>"
  shows "a * t \<le> n * b" and "n * b - a \<le> a * t" and "0 \<le> t"
proof -
  define q where "q = (of_int a / of_int b :: rat)"
  define r where "r = round_double q"
  define y where "y = of_int n / r"
  define f where "f = round_double y"
  define K where "K = (of_int (n * b) :: rat)"
  define z where "z = y * q"
  have t: "t = \<lfloor>f\<rfloor>" by (simp add: t_def f_def y_def r_def q_def)
  note ab = aspect_bounds [OF a b, folded q_def, folded r_def]
  have rpos: "0 < r" using ab(5) pow2_pos [of "- 25"] by linarith
  have y0: "0 \<le> y" unfolding y_def using n(1) rpos by simp
  have f0: "0 \<le> f" unfolding f_def by (rule round_double_nonneg [OF y0])
  show "0 \<le> t" unfolding t using f0 by simp
  have Apos: "(0::rat) < of_int a" using a(1) by simp
  have Bpos: "(0::rat) < of_int b" using b(1) by simp
  have Kn: "0 \<le> K" unfolding K_def using n(1) b(1) by simp
  have "n * b < 2 ^ 24 * 2 ^ 24" using n b by (intro mult_strict_mono) simp_all
  then have "n * b < 2 ^ 48" by simp
  then have "(of_int (n * b) :: rat) < of_int (2 ^ 48)" by (simp only: of_int_less_iff)
  then have Kb: "K < 2 ^ 48" unfolding K_def by simp
  have T: "of_int t \<le> f" "f < of_int t + 1" unfolding t by linarith+
  have yr: "y * r = of_int n" unfolding y_def using rpos by simp
  have Ay: "of_int a * y = of_int b * z" unfolding z_def q_def using Bpos by simp
  have BN: "of_int b * of_int n = K" unfolding K_def by simp
  have z1: "z - z * pow2 (- 53) \<le> of_int n"
  proof -
    have "y * (q - q * pow2 (- 53)) \<le> y * r" using ab(3) y0 by (intro mult_left_mono)
    then have "y * (q - q * pow2 (- 53)) \<le> of_int n" by (simp only: yr)
    then show ?thesis by (simp add: z_def algebra_simps)
  qed
  have z2: "of_int n \<le> z + z * pow2 (- 53)"
  proof -
    have "y * r \<le> y * (q + q * pow2 (- 53))" using ab(4) y0 by (intro mult_left_mono)
    then have "of_int n \<le> y * (q + q * pow2 (- 53))" by (simp only: yr)
    then show ?thesis by (simp add: z_def algebra_simps)
  qed
  have X1: "of_int b * z - of_int b * z * pow2 (- 53) \<le> K"
  proof -
    have "of_int b * (z - z * pow2 (- 53)) \<le> of_int b * of_int n"
      using z1 Bpos by (intro mult_left_mono) simp_all
    then have "of_int b * (z - z * pow2 (- 53)) \<le> K" by (simp only: BN)
    then show ?thesis by (simp add: algebra_simps)
  qed
  have X2: "K \<le> of_int b * z + of_int b * z * pow2 (- 53)"
  proof -
    have "of_int b * of_int n \<le> of_int b * (z + z * pow2 (- 53))"
      using z2 Bpos by (intro mult_left_mono) simp_all
    then have "K \<le> of_int b * (z + z * pow2 (- 53))" by (simp only: BN)
    then show ?thesis by (simp add: algebra_simps)
  qed
  show "a * t \<le> n * b" and "n * b - a \<le> a * t"
  proof -
    have both: "a * t \<le> n * b \<and> n * b - a \<le> a * t"
    proof (cases "n = 0")
      case True
      then have "f = 0" by (simp add: f_def y_def)
      then have "t = 0" by (simp add: t)
      with True a(1) show ?thesis by simp
    next
      case False
      with n(1) have N1: "(1::rat) \<le> of_int n" by simp
      have "1 / pow2 25 \<le> of_int n / r"
        using N1 ab(6) rpos by (intro frac_le) simp_all
      then have "pow2 (- 25) \<le> y" by (simp add: y_def)
      moreover have "pow2 (- 1022) \<le> pow2 (- 25)" by (simp only: pow2_le_iff)
      ultimately have yn: "pow2 (- 1022) \<le> y" by linarith
      have fl: "y - y * pow2 (- 53) \<le> f" unfolding f_def by (rule round_double_bounds(1) [OF yn])
      have fu: "f \<le> y + y * pow2 (- 53)" unfolding f_def by (rule round_double_bounds(2) [OF yn])
      have AT1: "of_int a * of_int t \<le> of_int a * f"
        using T(1) Apos by (intro mult_left_mono) simp_all
      have AT2: "of_int a * f < of_int a * (of_int t + 1)"
        using T(2) Apos by (intro mult_strict_left_mono) simp_all
      have Af1: "of_int a * f \<le> of_int a * (y + y * pow2 (- 53))"
        using fu Apos by (intro mult_left_mono) simp_all
      have Af2: "of_int a * (y - y * pow2 (- 53)) \<le> of_int a * f"
        using fl Apos by (intro mult_left_mono) simp_all
      have e1: "of_int a * (y + y * pow2 (- 53)) = of_int b * z + of_int b * z * pow2 (- 53)"
        using Ay by (simp add: algebra_simps)
      have e2: "of_int a * (y - y * pow2 (- 53)) = of_int b * z - of_int b * z * pow2 (- 53)"
        using Ay by (simp add: algebra_simps)
      have e3: "of_int a * (of_int t + 1) = of_int a * of_int t + (of_int a :: rat)"
        by (simp add: algebra_simps)
      define X where "X = of_int b * z"
      define AT where "AT = (of_int a :: rat) * of_int t"
      define AF where "AF = of_int a * f"
      have X0: "0 \<le> X" unfolding X_def z_def q_def using y0 Apos Bpos by simp
      have h1: "AT \<le> AF" "AF < AT + of_int a"
        using AT1 AT2 e3 by (simp_all only: AT_def AF_def)
      have h2: "AF \<le> X + X * pow2 (- 53)" "X - X * pow2 (- 53) \<le> AF"
        using Af1 Af2 e1 e2 by (simp_all only: AF_def X_def)
      have h3: "X - X * pow2 (- 53) \<le> K" "K \<le> X + X * pow2 (- 53)"
        using X1 X2 by (simp_all only: X_def)
      have "AT < K + 1"
        using h1(1) h2(1) h3(1) Kb Kn X0 by simp
      then have "of_int a * of_int t < K + 1" by (simp only: AT_def)
      moreover have "(of_int (n * b + 1) :: rat) = K + 1" by (simp add: K_def)
      moreover have "(of_int (a * t) :: rat) = of_int a * of_int t" by simp
      ultimately have "(of_int (a * t) :: rat) < of_int (n * b + 1)" by (simp only:)
      then have g1: "a * t < n * b + 1" by (simp only: of_int_less_iff)
      have "K - 1 - of_int a < AT"
        using h1(2) h2(2) h3(2) Kb Kn X0 by simp
      then have "K - 1 - of_int a < of_int a * of_int t" by (simp only: AT_def)
      moreover have "(of_int (n * b - 1 - a) :: rat) = K - 1 - of_int a" by (simp add: K_def)
      moreover have "(of_int (a * t) :: rat) = of_int a * of_int t" by simp
      ultimately have "(of_int (n * b - 1 - a) :: rat) < of_int (a * t)" by (simp only:)
      then have g2: "n * b - 1 - a < a * t" by (simp only: of_int_less_iff)
      from g1 g2 show ?thesis by linarith
    qed
    from both show "a * t \<le> n * b" and "n * b - a \<le> a * t" by simp_all
  qed
qed


lemma round_double_near_int:
  assumes "0 < n" "n < 2 ^ 53" "3 * \<bar>x - of_int n\<bar> \<le> of_int n * pow2 (- 53)"
  shows "round_double x = of_int n"
proof -
  define N where "N = (of_int n :: rat)"
  have N1: "1 \<le> N" unfolding N_def using assms(1) by simp
  have "n \<le> 2 ^ 53 - 1" using assms(2) by simp
  then have "(of_int n :: rat) \<le> of_int (2 ^ 53 - 1)" by (simp only: of_int_le_iff)
  then have Nb: "N \<le> 2 ^ 53 - 1" unfolding N_def by simp
  have d: "3 * \<bar>x - N\<bar> \<le> N * pow2 (- 53)" using assms(3) by (simp only: N_def)
  define D where "D = \<bar>x - N\<bar>"
  have D: "0 \<le> D" "x - N \<le> D" "N - x \<le> D" "3 * D \<le> N * pow2 (- 53)"
    using d by (simp_all add: D_def)
  have xl: "2 / 3 \<le> x" using D N1 by simp
  have xu: "x < pow2 53" using D Nb N1 by simp
  have x: "0 < x" using xl by linarith
  define e where "e = binade x"
  have b: "pow2 e \<le> x" "x < pow2 (e + 1)"
    using binade_bounds [OF x] by (simp_all add: e_def)
  have "pow2 e < pow2 53" using b(1) xu by linarith
  then have "e < 53" by (simp only: pow2_less_iff)
  then have e52: "e \<le> 52" by simp
  have "pow2 (- 1) < pow2 (e + 1)" using b(2) xl by simp
  then have "- 1 < e + 1" by (simp only: pow2_less_iff)
  then have e1: "- 1 \<le> e" by simp
  have babs: "pow2 e \<le> \<bar>x\<bar>" "\<bar>x\<bar> < pow2 (e + 1)" using b x by simp_all
  define k where "k = n * 2 ^ nat (52 - e)"
  have Nk: "N / pow2 (e - 52) = of_int k"
    using e52 by (simp add: N_def k_def divide_pow2 pow2_of_int)
  have u: "pow2 (e - 52) = pow2 (e + 1) * pow2 (- 53)"
  proof -
    have "e - 52 = (e + 1) + (- 53)" by simp
    then have "pow2 (e - 52) = pow2 ((e + 1) + (- 53))" by (simp only:)
    then show ?thesis by (simp only: pow2_add)
  qed
  define P where "P = pow2 (e + 1)"
  have "x < P" using b(2) by (simp only: P_def)
  then have "2 * D < P * pow2 (- 53)"
    using D xl N1 by simp
  then have "2 * \<bar>x - N\<bar> < pow2 (e + 1) * pow2 (- 53)" by (simp only: D_def P_def)
  then have "\<bar>x - N\<bar> / pow2 (e - 52) < 1 / 2"
    by (simp add: u pos_divide_less_eq)
  moreover have "\<bar>x - N\<bar> / pow2 (e - 52) = \<bar>x / pow2 (e - 52) - of_int k\<bar>"
    by (simp add: Nk [symmetric] diff_divide_distrib [symmetric])
  ultimately have near: "\<bar>x / pow2 (e - 52) - of_int k\<bar> < 1 / 2" by simp
  have "- 1022 \<le> e" using e1 by simp
  from round_double_eval [OF babs this near]
  have "round_double x = of_int k * pow2 (e - 52)" .
  also have "\<dots> = N / pow2 (e - 52) * pow2 (e - 52)" by (simp only: Nk)
  also have "\<dots> = N" by simp
  finally show ?thesis by (simp only: N_def)
qed


lemma div_cast:
  fixes k b :: int
  assumes "0 < b"
  shows "(of_int (k div b) :: rat) \<le> of_int k / of_int b"
    and "(of_int k / of_int b :: rat) \<le> of_int (k div b) + 1 - 1 / of_int b"
proof -
  have B: "(0::rat) < of_int b" using assms by simp
  have m: "0 \<le> k mod b" "k mod b < b" using assms by simp_all
  have km: "k = b * (k div b) + k mod b" by simp
  have i1: "b * (k div b) \<le> k" using m(1) km by linarith
  have i2: "k \<le> b * (k div b) + b - 1" using m(2) km by linarith
  have "(of_int (b * (k div b)) :: rat) \<le> of_int k" using i1 by (simp only: of_int_le_iff)
  then have "of_int (k div b) * of_int b \<le> (of_int k :: rat)" by (simp add: mult.commute)
  then show "(of_int (k div b) :: rat) \<le> of_int k / of_int b"
    using B by (simp add: pos_le_divide_eq)
  have "(of_int k :: rat) \<le> of_int (b * (k div b) + b - 1)" using i2 by (simp only: of_int_le_iff)
  then have "(of_int k :: rat) \<le> (of_int (k div b) + 1 - 1 / of_int b) * of_int b"
    using B by (simp add: algebra_simps)
  then show "(of_int k / of_int b :: rat) \<le> of_int (k div b) + 1 - 1 / of_int b"
    using B by (simp only: pos_divide_le_eq)
qed

lemma floor_scaled_up:
  fixes N a b :: int and c :: rat
  assumes N: "0 \<le> N" "N < 2 ^ 24" and ab: "0 < a" "a \<le> b" "b \<le> 100"
    and c: "of_int a / of_int b \<le> c" "c \<le> of_int a / of_int b + pow2 (- 53)"
  shows "\<lfloor>round_double (of_int N * c)\<rfloor> = (a * N) div b"
proof (cases "N = 0")
  case True
  then show ?thesis by simp
next
  case False
  with N(1) have N1: "(1::rat) \<le> of_int N" by simp
  have b: "0 < b" using ab by linarith
  define n where "n = (a * N) div b"
  define Nr where "Nr = (of_int N :: rat)"
  define V where "V = (of_int (a * N) / of_int b :: rat)"
  define x where "x = Nr * c"
  define nr where "nr = (of_int n :: rat)"
  have B: "(0::rat) < of_int b" "(of_int b :: rat) \<le> 100" using b ab(3) by simp_all
  have A: "(1::rat) \<le> of_int a" "(of_int a :: rat) \<le> of_int b" using ab by simp_all
  have Nb: "Nr < 2 ^ 24" unfolding Nr_def using N(2) by (simp add: of_int_less_numeral_power_cancel_iff)
  have N1': "1 \<le> Nr" using N1 by (simp only: Nr_def)
  have Vq: "V = Nr * (of_int a / of_int b)" by (simp add: V_def Nr_def)
  have V1: "nr \<le> V" unfolding nr_def n_def V_def by (rule div_cast(1) [OF b])
  have V2: "V \<le> nr + 1 - 1 / of_int b" unfolding nr_def n_def V_def by (rule div_cast(2) [OF b])
  have "1 / 100 \<le> (1::rat) / of_int b" using B by (intro divide_left_mono) simp_all
  then have V3: "V \<le> nr + 99 / 100" using V2 by linarith
  have "of_int a / of_int b \<le> (1::rat)" using A B by simp
  then have "Nr * (of_int a / of_int b) \<le> Nr * 1" using N1' by (intro mult_left_mono) simp_all
  then have V4: "V \<le> Nr" by (simp add: Vq)
  have "1 / 100 \<le> (of_int a :: rat) / of_int b" using A B by (intro frac_le) simp_all
  then have "1 * (1 / 100) \<le> Nr * (of_int a / of_int b)" using N1' by (intro mult_mono) simp_all
  then have V5: "1 / 100 \<le> V" by (simp add: Vq)
  have x1: "V \<le> x"
    unfolding Vq x_def using c(1) N1' by (intro mult_left_mono) simp_all
  have "Nr * c \<le> Nr * (of_int a / of_int b + pow2 (- 53))"
    using c(2) N1' by (intro mult_left_mono) simp_all
  then have x2: "x \<le> V + Nr * pow2 (- 53)" by (simp add: x_def Vq algebra_simps)
  have "pow2 (- 10) \<le> x" using x1 V5 by simp
  then have xn: "pow2 (- 1022) \<le> x" by (rule normal_ge)
  have up: "round_double x \<le> x + x * pow2 (- 53)" by (rule round_double_bounds(2) [OF xn])
  have n0: "0 \<le> n" unfolding n_def using ab(1) N(1) b by (simp add: pos_imp_zdiv_nonneg_iff)
  have "nr < 2 ^ 24" using V1 V4 Nb by linarith
  then have "(of_int n :: rat) < of_int (2 ^ 24)" by (simp add: nr_def)
  then have "n < 2 ^ 24" by (simp only: of_int_less_iff)
  then have n53: "n < 2 ^ 53" by simp
  have lo: "nr \<le> round_double x"
  proof (cases "n = 0")
    case True
    have "0 \<le> x" using x1 V5 by linarith
    then have "0 \<le> round_double x" by (rule round_double_nonneg)
    then show ?thesis using True by (simp add: nr_def)
  next
    case False
    with n0 have "0 < n" by simp
    moreover have "of_int n \<le> x" using V1 x1 by (simp add: nr_def)
    ultimately show ?thesis unfolding nr_def using n53 by (intro round_double_ge_int)
  qed
  have hi: "round_double x < nr + 1"
    using up x2 V3 V4 Nb N1' by simp
  have "\<lfloor>round_double x\<rfloor> = n"
    using lo hi by (intro floor_unique) (simp_all add: nr_def)
  then show ?thesis by (simp add: x_def Nr_def n_def)
qed


lemma floor_logo_ratio:
  fixes N :: int
  assumes N: "0 \<le> N" "N < 2 ^ 24"
  shows "\<lfloor>round_double (of_int N * default_logo_size_ratio)\<rfloor> = (3 * N) div 20"
proof (cases "N = 0")
  case True
  then show ?thesis by simp
next
  case False
  with N(1) have N1i: "1 \<le> N" by simp
  define n where "n = (3 * N) div 20"
  define m where "m = (3 * N) mod 20"
  define Nr where "Nr = (of_int N :: rat)"
  define nr where "nr = (of_int n :: rat)"
  define x where "x = Nr * default_logo_size_ratio"
  have N1: "1 \<le> Nr" unfolding Nr_def using N1i by simp
  have Nb: "Nr < 2 ^ 24" unfolding Nr_def using N(2) by (simp add: of_int_less_numeral_power_cancel_iff)
  have km: "3 * N = 20 * n + m" "0 \<le> m" "m < 20" by (simp_all add: n_def m_def)
  have n0: "0 \<le> n" using km N1i unfolding n_def by simp
  have "n < 2 ^ 24" using km N(2) n0 by linarith
  then have n53: "n < 2 ^ 53" by simp
  have "(of_int (3 * N) :: rat) = of_int (20 * n + m)" by (simp only: km(1))
  then have cast: "3 * Nr = 20 * nr + of_int m" by (simp add: Nr_def nr_def)
  have xv: "x = Nr * (5404319552844595 / 36028797018963968)"
    by (simp add: x_def default_logo_size_ratio_val)
  have "\<lfloor>round_double x\<rfloor> = n"
  proof (cases "m = 0")
    case True
    then have c0: "3 * Nr = 20 * nr" using cast by simp
    then have "1 \<le> nr" using N1 n0 by (simp add: nr_def)
    then have npos: "0 < n" by (simp add: nr_def)
    have "3 * \<bar>x - nr\<bar> \<le> nr * pow2 (- 53)"
      using c0 N1 by (simp add: xv)
    then have "round_double x = of_int n"
      unfolding nr_def by (rule round_double_near_int [OF npos n53])
    then show ?thesis by simp
  next
    case False
    then have "1 \<le> m" "m \<le> 19" using km by simp_all
    then have "(1::rat) \<le> of_int m" "(of_int m :: rat) \<le> 19" by simp_all
    then have c1: "20 * nr + 1 \<le> 3 * Nr" "3 * Nr \<le> 20 * nr + 19" using cast by simp_all
    have xl: "nr \<le> x" using c1 Nb N1 by (simp add: xv)
    have xu: "x \<le> nr + 19 / 20" using c1 Nb N1 by (simp add: xv)
    have "pow2 (- 10) \<le> x" using N1 by (simp add: xv)
    then have xn: "pow2 (- 1022) \<le> x" by (rule normal_ge)
    have up: "round_double x \<le> x + x * pow2 (- 53)" by (rule round_double_bounds(2) [OF xn])
    have lo: "nr \<le> round_double x"
    proof (cases "n = 0")
      case True
      have "0 \<le> x" using N1 by (simp add: xv)
      then have "0 \<le> round_double x" by (rule round_double_nonneg)
      then show ?thesis using True by (simp add: nr_def)
    next
      case False
      with n0 have "0 < n" by simp
      moreover have "of_int n \<le> x" using xl by (simp add: nr_def)
      ultimately show ?thesis unfolding nr_def using n53 by (intro round_double_ge_int)
    qed
    have nrb: "nr < 2 ^ 24" using c1 Nb by simp
    have hi: "round_double x < nr + 1" using up xu nrb by simp
    show ?thesis using lo hi by (intro floor_unique) (simp_all add: nr_def)
  qed
  then show ?thesis by (simp add: x_def Nr_def n_def)
qed

lemma floor_default_product:
  "0 \<le> N \<Longrightarrow> N < 2 ^ 24 \<Longrightarrow>
   \<lfloor>round_double (of_int N * default_product_size_ratio)\<rfloor> = (2 * N) div 5"
  using floor_scaled_up [of N 2 5 default_product_size_ratio]
  by (simp add: default_product_size_ratio_val)

lemma floor_lit_0_9:
  "0 \<le> N \<Longrightarrow> N < 2 ^ 24 \<Longrightarrow> \<lfloor>round_double (of_int N * lit_0_9)\<rfloor> = (9 * N) div 10"
  using floor_scaled_up [of N 9 10 lit_0_9] by (simp add: lit_0_9_val)

lemma floor_lit_0_05:
  "0 \<le> N \<Longrightarrow> N < 2 ^ 24 \<Longrightarrow> \<lfloor>round_double (of_int N * lit_0_05)\<rfloor> = N div 20"
  using floor_scaled_up [of N 1 20 lit_0_05] by (simp add: lit_0_05_val)

lemma floor_lit_0_02:
  "0 \<le> N \<Longrightarrow> N < 2 ^ 24 \<Longrightarrow> \<lfloor>round_double (of_int N * lit_0_02)\<rfloor> = N div 50"
  using floor_scaled_up [of N 1 50 lit_0_02] by (simp add: lit_0_02_val)


lemma small_int: "(N::int) < 2 ^ 24 \<Longrightarrow> N < 2 ^ 53"
  by simp

lemma int_of_product_floor:
  assumes "0 \<le> N" "N < 2 ^ 53" "0 \<le> c" "c \<le> pow2 100"
  shows "int_of_product N c = Inr \<lfloor>round_double (of_int N * c)\<rfloor>"
proof -
  have "0 \<le> of_int N * c" using assms(1,3) by simp
  then have "0 \<le> round_double (of_int N * c)" by (rule round_double_nonneg)
  then show ?thesis
    by (simp add: int_of_product_def int_times_float_ok [OF assms] int_of_float_nonneg)
qed

lemma int_of_quotient_floor:
  assumes "0 \<le> N" "N < 2 ^ 53" "pow2 (- 100) \<le> c"
  shows "int_of_quotient N c = Inr \<lfloor>round_double (of_int N / c)\<rfloor>"
proof -
  have "0 < c" using assms(3) pow2_pos [of "- 100"] by linarith
  then have "0 \<le> of_int N / c" using assms(1) by simp
  then have "0 \<le> round_double (of_int N / c)" by (rule round_double_nonneg)
  then show ?thesis
    by (simp add: int_of_quotient_def int_over_float_ok [OF assms] int_of_float_nonneg)
qed

lemma lit_bounds:
  "0 \<le> lit_0_9" "lit_0_9 \<le> pow2 100" "0 \<le> lit_0_05" "lit_0_05 \<le> pow2 100"
  "0 \<le> lit_0_02" "lit_0_02 \<le> pow2 100"
  "0 \<le> default_product_size_ratio" "default_product_size_ratio \<le> pow2 100"
  "0 \<le> default_logo_size_ratio" "default_logo_size_ratio \<le> pow2 100"
  by (simp_all add: lit_0_9_val lit_0_05_val lit_0_02_val default_product_size_ratio_val
      default_logo_size_ratio_val)

lemma int_of_product_default:
  assumes "0 \<le> N" "N < 2 ^ 24"
  shows "int_of_product N default_product_size_ratio = Inr ((2 * N) div 5)"
  using int_of_product_floor [OF assms(1) small_int [OF assms(2)] lit_bounds(7,8)]
    floor_default_product [OF assms]
  by (simp only:)

lemma int_of_product_logo:
  assumes "0 \<le> N" "N < 2 ^ 24"
  shows "int_of_product N default_logo_size_ratio = Inr ((3 * N) div 20)"
  using int_of_product_floor [OF assms(1) small_int [OF assms(2)] lit_bounds(9,10)]
    floor_logo_ratio [OF assms]
  by (simp only:)

lemma int_of_product_0_9:
  assumes "0 \<le> N" "N < 2 ^ 24"
  shows "int_of_product N lit_0_9 = Inr ((9 * N) div 10)"
  using int_of_product_floor [OF assms(1) small_int [OF assms(2)] lit_bounds(1,2)]
    floor_lit_0_9 [OF assms]
  by (simp only:)

lemma int_of_product_0_05:
  assumes "0 \<le> N" "N < 2 ^ 24"
  shows "int_of_product N lit_0_05 = Inr (N div 20)"
  using int_of_product_floor [OF assms(1) small_int [OF assms(2)] lit_bounds(3,4)]
    floor_lit_0_05 [OF assms]
  by (simp only:)

lemma int_of_product_0_02:
  assumes "0 \<le> N" "N < 2 ^ 24"
  shows "int_of_product N lit_0_02 = Inr (N div 50)"
  using int_of_product_floor [OF assms(1) small_int [OF assms(2)] lit_bounds(5,6)]
    floor_lit_0_02 [OF assms]
  by (simp only:)

lemma int_times_0_9:
  assumes "0 \<le> N" "N < 2 ^ 24"
  shows "int_times_float N lit_0_9 = Inr (round_double (of_int N * lit_0_9))"
  by (rule int_times_float_ok [OF assms(1) small_int [OF assms(2)] lit_bounds(1,2)])

lemma aspect_of_0 [simp]: "aspect_of 0 b = 0"
  by (simp add: aspect_of_def)

lemma aspect_of_range:
  assumes "0 \<le> a" "a < 2 ^ 24" "0 < b" "b < 2 ^ 24"
  shows "0 \<le> aspect_of a b" "aspect_of a b \<le> pow2 100" "0 < a \<Longrightarrow> pow2 (- 100) \<le> aspect_of a b"
proof -
  have le: "pow2 25 \<le> pow2 100" "pow2 (- 100) \<le> pow2 (- 25)" by (simp_all only: pow2_le_iff)
  show "0 \<le> aspect_of a b" unfolding aspect_of_def using assms(1,3)
    by (intro round_double_nonneg) simp
  show "aspect_of a b \<le> pow2 100"
  proof (cases "a = 0")
    case True
    then show ?thesis by simp
  next
    case False
    with assms(1) have "0 < a" by simp
    from aspect_bounds(6) [OF this assms(2-4)] le show ?thesis by (simp add: aspect_of_def)
  qed
  show "pow2 (- 100) \<le> aspect_of a b" if "0 < a"
    using aspect_bounds(5) [OF that assms(2-4)] le unfolding aspect_of_def by linarith
qed

lemma int_true_div_aspect:
  assumes "0 \<le> a" "a < 2 ^ 24" "0 < b"
  shows "int_true_div a b = Inr (aspect_of a b)"
  unfolding aspect_of_def by (rule int_true_div_ok [OF assms(1) small_int [OF assms(2)] assms(3)])


lemma small_side_int: "small_side n \<Longrightarrow> 0 \<le> int n \<and> int n < 2 ^ 24"
  by (simp add: small_side_def)

lemma div_bounds:
  fixes N :: int
  assumes "0 \<le> N" "N < 2 ^ 24"
  shows "0 \<le> (2 * N) div 5" "(2 * N) div 5 < 2 ^ 24" "0 \<le> (9 * N) div 10" "(9 * N) div 10 < 2 ^ 24"
    "0 \<le> (3 * N) div 20" "(3 * N) div 20 < 2 ^ 24"
  using assms by simp_all

lemma product_target_default:
  assumes W: "small_side bg_width" and H: "small_side bg_height"
    and pw: "small_side (width product)" and ph: "small_side (height product)" "0 < height product"
  defines "th0 \<equiv> (2 * int bg_height) div 5"
  defines "aspect \<equiv> aspect_of (int (width product)) (int (height product))"
  defines "tw0 \<equiv> \<lfloor>round_double (of_int th0 * aspect)\<rfloor>"
  shows "product_target bg_width bg_height product default_product_size_ratio =
     (if of_int tw0 > round_double (of_int (int bg_width) * lit_0_9)
      then Inr ((9 * int bg_width) div 10,
                \<lfloor>round_double (of_int ((9 * int bg_width) div 10) / aspect)\<rfloor>)
      else Inr (tw0, th0))"
proof -
  note Wi = small_side_int [OF W] and Hi = small_side_int [OF H]
    and pwi = small_side_int [OF pw] and phi = small_side_int [OF ph(1)]
  have Wi1: "0 \<le> int bg_width" and Wi2: "int bg_width < 2 ^ 24" using Wi by simp_all
  have Hi1: "0 \<le> int bg_height" and Hi2: "int bg_height < 2 ^ 24" using Hi by simp_all
  have pw1: "0 \<le> int (width product)" and pw2: "int (width product) < 2 ^ 24" using pwi by simp_all
  have ph2: "int (height product) < 2 ^ 24" using phi by simp
  have ph0: "0 < int (height product)" using ph(2) by simp
  have s1: "int_of_product (int bg_height) default_product_size_ratio = Inr th0"
    unfolding th0_def by (rule int_of_product_default [OF Hi1 Hi2])
  have s2: "int_true_div (int (width product)) (int (height product)) = Inr aspect"
    unfolding aspect_def by (rule int_true_div_aspect [OF pw1 pw2 ph0])
  note ar = aspect_of_range [OF pw1 pw2 ph0 ph2, folded aspect_def]
  have th: "0 \<le> th0" "th0 < 2 ^ 24" unfolding th0_def using div_bounds(1,2) [OF Hi1 Hi2] .
  have s3: "int_of_product th0 aspect = Inr tw0"
    unfolding tw0_def by (rule int_of_product_floor [OF th(1) small_int [OF th(2)] ar(1,2)])
  have s4: "int_times_float (int bg_width) lit_0_9
              = Inr (round_double (of_int (int bg_width) * lit_0_9))"
    by (rule int_times_0_9 [OF Wi1 Wi2])
  have s5: "int_of_product (int bg_width) lit_0_9 = Inr ((9 * int bg_width) div 10)"
    by (rule int_of_product_0_9 [OF Wi1 Wi2])
  have cw: "0 \<le> (9 * int bg_width) div 10" "(9 * int bg_width) div 10 < 2 ^ 24"
    using div_bounds(3,4) [OF Wi1 Wi2] .
  have lim0: "0 \<le> round_double (of_int (int bg_width) * lit_0_9)"
    using Wi1 lit_bounds(1) by (intro round_double_nonneg) simp
  show ?thesis
  proof (cases "of_int tw0 > round_double (of_int (int bg_width) * lit_0_9)")
    case False
    then show ?thesis
      by (simp add: product_target_def s1 s2 s3 s4)
  next
    case True
    have "width product \<noteq> 0"
    proof
      assume "width product = 0"
      then have "tw0 = 0" by (simp add: tw0_def aspect_def)
      with True lim0 show False by simp
    qed
    then have "0 < int (width product)" by simp
    from ar(3) [OF this]
    have s6: "int_of_quotient ((9 * int bg_width) div 10) aspect
        = Inr \<lfloor>round_double (of_int ((9 * int bg_width) div 10) / aspect)\<rfloor>"
      by (rule int_of_quotient_floor [OF cw(1) small_int [OF cw(2)]])
    from True show ?thesis
      by (simp add: product_target_def s1 s2 s3 s4 s5 s6)
  qed
qed

lemma product_position_default:
  assumes H: "small_side bg_height"
  shows "product_position bg_width bg_height (tw, th) =
     Inr ((int bg_width - tw) div 2, int bg_height - th - int bg_height div 20)"
proof -
  note Hi = small_side_int [OF H]
  have "int_of_product (int bg_height) lit_0_05 = Inr (int bg_height div 20)"
    using Hi by (intro int_of_product_0_05) simp_all
  then show ?thesis by (simp add: product_position_def)
qed

lemma logo_target_default:
  assumes W: "small_side bg_width"
    and lw: "small_side (width logo)" "0 < width logo"
    and lh: "small_side (height logo)" "0 < height logo"
  shows "logo_target bg_width logo default_logo_size_ratio =
     Inr ((3 * int bg_width) div 20,
          \<lfloor>round_double (of_int ((3 * int bg_width) div 20)
             / aspect_of (int (width logo)) (int (height logo)))\<rfloor>)"
proof -
  note Wi = small_side_int [OF W] and lwi = small_side_int [OF lw(1)]
    and lhi = small_side_int [OF lh(1)]
  have Wi1: "0 \<le> int bg_width" and Wi2: "int bg_width < 2 ^ 24" using Wi by simp_all
  have lw1: "0 \<le> int (width logo)" and lw2: "int (width logo) < 2 ^ 24" using lwi by simp_all
  have lh2: "int (height logo) < 2 ^ 24" using lhi by simp
  have lh0: "0 < int (height logo)" using lh(2) by simp
  have lw0: "0 < int (width logo)" using lw(2) by simp
  have s1: "int_of_product (int bg_width) default_logo_size_ratio = Inr ((3 * int bg_width) div 20)"
    by (rule int_of_product_logo [OF Wi1 Wi2])
  have s2: "int_true_div (int (width logo)) (int (height logo))
      = Inr (aspect_of (int (width logo)) (int (height logo)))"
    by (rule int_true_div_aspect [OF lw1 lw2 lh0])
  note ar = aspect_of_range [OF lw1 lw2 lh0 lh2]
  have tw: "0 \<le> (3 * int bg_width) div 20" "(3 * int bg_width) div 20 < 2 ^ 24"
    using div_bounds(5,6) [OF Wi1 Wi2] .
  have s3: "int_of_quotient ((3 * int bg_width) div 20)
        (aspect_of (int (width logo)) (int (height logo)))
      = Inr \<lfloor>round_double (of_int ((3 * int bg_width) div 20)
             / aspect_of (int (width logo)) (int (height logo)))\<rfloor>"
    by (rule int_of_quotient_floor [OF tw(1) small_int [OF tw(2)] ar(3) [OF lw0]])
  show ?thesis by (simp add: logo_target_def s1 s2 s3)
qed

lemma logo_position_default:
  assumes W: "small_side bg_width"
  shows "logo_position bg_width (tw, th) =
     Inr (int bg_width - tw - int bg_width div 50, int bg_width div 50)"
proof -
  note Wi = small_side_int [OF W]
  have "int_of_product (int bg_width) lit_0_02 = Inr (int bg_width div 50)"
    using Wi by (intro int_of_product_0_02) simp_all
  then show ?thesis by (simp add: logo_position_def)
qed

lemma round_double_1 [simp]: "round_double 1 = 1"
  using round_double_int [of 1] by simp

lemma round_double_numeral:
  "numeral k < (2 ^ 53 :: int) \<Longrightarrow> round_double (numeral k) = numeral k"
  using round_double_int [of "numeral k"] by simp

lemma limit_floor:
  assumes "small_side bg_width"
  shows "\<lfloor>round_double (of_int (int bg_width) * lit_0_9)\<rfloor> = (9 * int bg_width) div 10"
  using small_side_int [OF assms] by (intro floor_lit_0_9) simp_all

lemma nine_tenths: "(of_int ((9 * N) div 10) :: rat) \<le> 9 / 10 * of_int N"
  using div_cast(1) [of 10 "9 * N"] by simp

text \<open>
  C1. For a background and a product with sides below \<open>2^24\<close> pixels and the default ratio,
  create\_composite computes a target size for the product, and the target width is at most
  nine tenths of the width of the background.
\<close>

theorem product_width_within_limit:
  assumes "small_side bg_width" "small_side bg_height"
    and "small_side (width product)" "small_side (height product)" "0 < height product"
  shows "\<exists>tw th. product_target bg_width bg_height product default_product_size_ratio
            = Inr (tw, th) \<and>
          (of_int tw :: rat) \<le> 9 / 10 * of_nat bg_width"
proof -
  define limit where "limit = round_double (of_int (int bg_width) * lit_0_9)"
  define tw0 where "tw0 = \<lfloor>round_double (of_int ((2 * int bg_height) div 5)
      * aspect_of (int (width product)) (int (height product)))\<rfloor>"
  have fl: "\<lfloor>limit\<rfloor> = (9 * int bg_width) div 10"
    unfolding limit_def by (rule limit_floor [OF assms(1)])
  note nt = nine_tenths [of "int bg_width"]
  show ?thesis
  proof (cases "of_int tw0 > limit")
    case True
    then have "product_target bg_width bg_height product default_product_size_ratio
      = Inr ((9 * int bg_width) div 10,
             \<lfloor>round_double (of_int ((9 * int bg_width) div 10)
                / aspect_of (int (width product)) (int (height product)))\<rfloor>)"
      unfolding product_target_default [OF assms] limit_def tw0_def by simp
    with nt show ?thesis by simp
  next
    case False
    then have eq: "product_target bg_width bg_height product default_product_size_ratio
      = Inr (tw0, (2 * int bg_height) div 5)"
      unfolding product_target_default [OF assms] limit_def tw0_def by simp
    from False have "of_int tw0 \<le> limit" by simp
    then have "tw0 \<le> \<lfloor>limit\<rfloor>" by (simp add: le_floor_iff)
    then have "tw0 \<le> (9 * int bg_width) div 10" by (simp only: fl)
    then have "(of_int tw0 :: rat) \<le> of_int ((9 * int bg_width) div 10)"
      by (simp only: of_int_le_iff)
    with nt eq show ?thesis by simp
  qed
qed

text \<open>
  At the scenario of the specification, a background of 1024 by 1024 pixels and a square
  product.
\<close>

theorem product_width_within_limit_witness:
  "small_side 1024 \<and> small_side (width demo_product) \<and> small_side (height demo_product) \<and>
   0 < height demo_product \<and>
   (\<exists>tw th. product_target 1024 1024 demo_product default_product_size_ratio = Inr (tw, th) \<and>
      (of_int tw :: rat) \<le> 9 / 10 * of_nat 1024)"
proof -
  have h: "small_side 1024" "small_side (width demo_product)" "small_side (height demo_product)"
    "0 < height demo_product"
    by (simp_all add: small_side_def demo_product_def new_image_def)
  from product_width_within_limit [OF h(1) h(1) h(2-4)] h show ?thesis by blast
qed

section \<open>The sizes and positions in closed form\<close>

lemma product_target_int:
  assumes W: "small_side bg_width" and H: "small_side bg_height"
    and P: "small_side (width product)" "small_side (height product)" "0 < height product"
  defines "th0 \<equiv> (2 * int bg_height) div 5"
  defines "aspect \<equiv> aspect_of (int (width product)) (int (height product))"
  defines "tw0 \<equiv> \<lfloor>round_double (of_int th0 * aspect)\<rfloor>"
  defines "cw \<equiv> (9 * int bg_width) div 10"
  shows "product_target bg_width bg_height product default_product_size_ratio =
     (if tw0 > cw then Inr (cw, \<lfloor>round_double (of_int cw / aspect)\<rfloor>) else Inr (tw0, th0))"
proof -
  have "(of_int tw0 > round_double (of_int (int bg_width) * lit_0_9)) = (tw0 > cw)"
    unfolding cw_def limit_floor [OF W, symmetric] by (simp only: floor_less_iff)
  then show ?thesis
    unfolding product_target_default [OF W H P] th0_def aspect_def tw0_def cw_def by simp
qed



section \<open>The sample inputs\<close>

lemma demo_shapes:
  "width demo_background = 1024" "height demo_background = 1024" "mode demo_background = RGB"
  "width demo_product = 500" "height demo_product = 500" "mode demo_product = RGBA"
  "width demo_logo = 200" "height demo_logo = 100" "mode demo_logo = RGBA"
  "width demo_wide_product = 1000" "height demo_wide_product = 10"
  by (simp_all add: demo_background_def demo_product_def demo_logo_def demo_wide_product_def
      new_image_def)

lemma demo_small:
  "small_side 1024" "small_side (width demo_product)" "small_side (height demo_product)"
  "0 < height demo_product"
  "small_side (width demo_logo)" "0 < width demo_logo"
  "small_side (height demo_logo)" "0 < height demo_logo"
  "small_side (width demo_wide_product)" "small_side (height demo_wide_product)"
  "0 < height demo_wide_product"
  by (simp_all add: demo_shapes small_side_def)

lemma demo_product_target:
  "product_target 1024 1024 demo_product default_product_size_ratio = Inr (409, 409)"
  unfolding product_target_int [OF demo_small(1) demo_small(1) demo_small(2-4)]
  by (simp add: demo_shapes aspect_of_def round_double_numeral)

lemma demo_product_position:
  "product_position 1024 1024 (409, 409) = Inr (307, 564)"
  unfolding product_position_default [OF demo_small(1)] by simp

lemma demo_logo_height: "\<lfloor>round_double (153 / 2)\<rfloor> = 76"
proof -
  define t where "t = \<lfloor>round_double (153 / 2)\<rfloor>"
  have "round_double (200 / 100) = 2" by (simp add: round_double_numeral)
  with trunc_quotient_close(1,2) [of 153 200 100]
  have "200 * t \<le> 15300" "15300 - 200 \<le> 200 * t" by (simp_all add: t_def)
  then have "t = 76" by arith
  then show ?thesis by (simp add: t_def)
qed

lemma demo_logo_target:
  "logo_target 1024 demo_logo default_logo_size_ratio = Inr (153, 76)"
  unfolding logo_target_default [OF demo_small(1) demo_small(5-8)]
  by (simp add: demo_shapes aspect_of_def round_double_numeral demo_logo_height)

lemma demo_logo_position:
  "logo_position 1024 (153, 76) = Inr (851, 20)"
  unfolding logo_position_default [OF demo_small(1)] by simp



section \<open>The scenario of the specification\<close>

lemma paste_with_alpha_returns:
  assumes "mode base = RGBA" "mode overlay = RGBA"
  shows "\<exists>res. paste_with_alpha pil base overlay position = Inr res"
  unfolding paste_with_alpha_RGBA [OF assms(2)] using assms(1)
  by (simp add: alpha_composite_def new_image_def)

lemma resize_demo_pil:
  assumes "1 \<le> fst sz" "1 \<le> snd sz"
  shows "\<exists>res. resize demo_pil im sz = Inr res \<and> mode res = mode im"
  using assms by (auto simp: resize_def demo_pil_def sum_bind_def copy_def)

lemma create_composite_demo:
  "\<exists>result. create_composite demo_pil demo_background demo_product demo_logo
      default_product_size_ratio default_logo_size_ratio = Inr result"
proof -
  define background2 where
    "background2 = demo_background\<lparr>mode := RGBA, getpixel := getpixel demo_background\<rparr>"
  have b2: "convert demo_pil demo_background RGBA = Inr background2"
    by (simp add: convert_def demo_shapes demo_pil_def sum_bind_def background2_def)
  have shape: "width (copy background2) = 1024" "height (copy background2) = 1024"
    "mode (copy background2) = RGBA"
    by (simp_all add: copy_def background2_def demo_shapes)
  have prep: "prepare_image demo_pil demo_product RGBA = Inr demo_product"
    "prepare_image demo_pil demo_logo RGBA = Inr demo_logo"
    by (simp_all add: prepare_image_def demo_shapes)
  obtain product_resized where
    pr: "resize demo_pil demo_product (409, 409) = Inr product_resized"
      "mode product_resized = RGBA"
    using resize_demo_pil [of "(409, 409)" demo_product] by (auto simp: demo_shapes)
  obtain composite2 where
    c2: "paste_with_alpha demo_pil (copy background2) product_resized (307, 564)
           = Inr composite2"
    using paste_with_alpha_returns [OF shape(3) pr(2)] by blast
  note s2 = paste_with_alpha_shape [OF c2]
  obtain logo_resized where
    lr: "resize demo_pil demo_logo (153, 76) = Inr logo_resized" "mode logo_resized = RGBA"
    using resize_demo_pil [of "(153, 76)" demo_logo] by (auto simp: demo_shapes)
  obtain result where
    r: "paste_with_alpha demo_pil composite2 logo_resized (851, 20) = Inr result"
    using paste_with_alpha_returns [of composite2 logo_resized] s2 lr(2) by blast
  have "create_composite demo_pil demo_background demo_product demo_logo
      default_product_size_ratio default_logo_size_ratio = Inr result"
    unfolding create_composite_def
    by (simp add: demo_shapes b2 shape prep Let_def demo_product_target demo_product_position
        demo_logo_target demo_logo_position pr c2 lr r)
  then show ?thesis ..
qed

theorem create_composite_size_mode_witness:
  "\<exists>result. create_composite demo_pil demo_background demo_product demo_logo
      default_product_size_ratio default_logo_size_ratio = Inr result \<and>
    width result = width demo_background \<and> height result = height demo_background \<and>
    mode result = RGBA"
proof -
  from create_composite_demo obtain result where
    r: "create_composite demo_pil demo_background demo_product demo_logo
      default_product_size_ratio default_logo_size_ratio = Inr result" ..
  from create_composite_size_mode [OF r] r show ?thesis by blast
qed

section \<open>Where the product and the logo go\<close>

lemma scaled_floor_bounds:
  fixes N :: int and ratio :: rat
  assumes "0 \<le> N" "N < 2 ^ 24" "0 \<le> ratio" "ratio \<le> 2 ^ 24"
  shows "0 \<le> \<lfloor>round_double (of_int N * ratio)\<rfloor>"
    and "\<lfloor>round_double (of_int N * ratio)\<rfloor> < 2 ^ 53"
    and "ratio \<le> pow2 100"
proof -
  define x where "x = of_int N * ratio"
  have x0: "0 \<le> x" unfolding x_def using assms(1,3) by simp
  have N: "(of_int N :: rat) \<le> 2 ^ 24"
    using assms(2) by (simp add: of_int_le_numeral_power_cancel_iff)
  have "x \<le> 2 ^ 24 * 2 ^ 24" unfolding x_def
    using assms(1,3,4) N by (intro mult_mono) simp_all
  then have "x \<le> pow2 48" by simp
  then have "round_double x \<le> pow2 48" using x0 by (intro round_double_le_pow2) simp_all
  then have le: "round_double x \<le> 2 ^ 48" by simp
  have r0: "0 \<le> round_double x" by (rule round_double_nonneg [OF x0])
  then show "0 \<le> \<lfloor>round_double (of_int N * ratio)\<rfloor>" by (simp add: x_def)
  have "(of_int \<lfloor>round_double x\<rfloor> :: rat) \<le> round_double x" by (rule of_int_floor_le)
  with le have "(of_int \<lfloor>round_double x\<rfloor> :: rat) \<le> of_int (2 ^ 48)" by simp
  then have "\<lfloor>round_double x\<rfloor> \<le> 2 ^ 48" by (simp only: of_int_le_iff)
  then show "\<lfloor>round_double (of_int N * ratio)\<rfloor> < 2 ^ 53" by (simp add: x_def)
  have "pow2 24 \<le> pow2 100" by (simp only: pow2_le_iff)
  then show "ratio \<le> pow2 100" using assms(4) by simp
qed

lemma product_target_ratio:
  assumes W: "small_side bg_width" and H: "small_side bg_height"
    and pw: "small_side (width product)" and ph: "small_side (height product)" "0 < height product"
    and r: "0 \<le> ratio" "ratio \<le> 2 ^ 24"
  defines "th0 \<equiv> \<lfloor>round_double (of_int (int bg_height) * ratio)\<rfloor>"
  defines "aspect \<equiv> aspect_of (int (width product)) (int (height product))"
  defines "tw0 \<equiv> \<lfloor>round_double (of_int th0 * aspect)\<rfloor>"
  defines "cw \<equiv> (9 * int bg_width) div 10"
  shows "product_target bg_width bg_height product ratio =
     (if tw0 > cw then Inr (cw, \<lfloor>round_double (of_int cw / aspect)\<rfloor>) else Inr (tw0, th0))"
proof -
  note Wi = small_side_int [OF W] and Hi = small_side_int [OF H]
    and pwi = small_side_int [OF pw] and phi = small_side_int [OF ph(1)]
  have Wi1: "0 \<le> int bg_width" and Wi2: "int bg_width < 2 ^ 24" using Wi by simp_all
  have Hi1: "0 \<le> int bg_height" and Hi2: "int bg_height < 2 ^ 24" using Hi by simp_all
  have pw1: "0 \<le> int (width product)" and pw2: "int (width product) < 2 ^ 24" using pwi by simp_all
  have ph2: "int (height product) < 2 ^ 24" using phi by simp
  have ph0: "0 < int (height product)" using ph(2) by simp
  note th = scaled_floor_bounds [OF Hi1 Hi2 r, folded th0_def]
  have s1: "int_of_product (int bg_height) ratio = Inr th0"
    unfolding th0_def by (rule int_of_product_floor [OF Hi1 small_int [OF Hi2] r(1) th(3)])
  have s2: "int_true_div (int (width product)) (int (height product)) = Inr aspect"
    unfolding aspect_def by (rule int_true_div_aspect [OF pw1 pw2 ph0])
  note ar = aspect_of_range [OF pw1 pw2 ph0 ph2, folded aspect_def]
  have s3: "int_of_product th0 aspect = Inr tw0"
    unfolding tw0_def by (rule int_of_product_floor [OF th(1,2) ar(1,2)])
  have s4: "int_times_float (int bg_width) lit_0_9
              = Inr (round_double (of_int (int bg_width) * lit_0_9))"
    by (rule int_times_0_9 [OF Wi1 Wi2])
  have s5: "int_of_product (int bg_width) lit_0_9 = Inr cw"
    unfolding cw_def by (rule int_of_product_0_9 [OF Wi1 Wi2])
  have cw: "0 \<le> cw" "cw < 2 ^ 24"
    unfolding cw_def using div_bounds(3,4) [OF Wi1 Wi2] .
  have cond: "(of_int tw0 > round_double (of_int (int bg_width) * lit_0_9)) = (tw0 > cw)"
    unfolding cw_def limit_floor [OF W, symmetric] by (simp only: floor_less_iff)
  show ?thesis
  proof (cases "tw0 > cw")
    case False
    with cond show ?thesis
      by (simp add: product_target_def s1 s2 s3 s4)
  next
    case True
    have "width product \<noteq> 0"
    proof
      assume "width product = 0"
      then have "tw0 = 0" by (simp add: tw0_def aspect_def)
      with True cw(1) show False by simp
    qed
    then have "0 < int (width product)" by simp
    from ar(3) [OF this]
    have s6: "int_of_quotient cw aspect = Inr \<lfloor>round_double (of_int cw / aspect)\<rfloor>"
      by (rule int_of_quotient_floor [OF cw(1) small_int [OF cw(2)]])
    from True cond show ?thesis
      by (simp add: product_target_def s1 s2 s3 s4 s5 s6)
  qed
qed

lemma logo_target_ratio:
  assumes W: "small_side bg_width"
    and lw: "small_side (width logo)" "0 < width logo"
    and lh: "small_side (height logo)" "0 < height logo"
    and r: "0 \<le> ratio" "ratio \<le> 2 ^ 24"
  defines "tw0 \<equiv> \<lfloor>round_double (of_int (int bg_width) * ratio)\<rfloor>"
  defines "aspect \<equiv> aspect_of (int (width logo)) (int (height logo))"
  shows "logo_target bg_width logo ratio = Inr (tw0, \<lfloor>round_double (of_int tw0 / aspect)\<rfloor>)"
proof -
  note Wi = small_side_int [OF W] and lwi = small_side_int [OF lw(1)]
    and lhi = small_side_int [OF lh(1)]
  have Wi1: "0 \<le> int bg_width" and Wi2: "int bg_width < 2 ^ 24" using Wi by simp_all
  have lw1: "0 \<le> int (width logo)" and lw2: "int (width logo) < 2 ^ 24" using lwi by simp_all
  have lh2: "int (height logo) < 2 ^ 24" using lhi by simp
  have lh0: "0 < int (height logo)" using lh(2) by simp
  have lw0: "0 < int (width logo)" using lw(2) by simp
  note tw = scaled_floor_bounds [OF Wi1 Wi2 r, folded tw0_def]
  have s1: "int_of_product (int bg_width) ratio = Inr tw0"
    unfolding tw0_def by (rule int_of_product_floor [OF Wi1 small_int [OF Wi2] r(1) tw(3)])
  have s2: "int_true_div (int (width logo)) (int (height logo)) = Inr aspect"
    unfolding aspect_def by (rule int_true_div_aspect [OF lw1 lw2 lh0])
  note ar = aspect_of_range [OF lw1 lw2 lh0 lh2, folded aspect_def]
  have s3: "int_of_quotient tw0 aspect = Inr \<lfloor>round_double (of_int tw0 / aspect)\<rfloor>"
    by (rule int_of_quotient_floor [OF tw(1,2) ar(3) [OF lw0]])
  show ?thesis by (simp add: logo_target_def s1 s2 s3)
qed

lemma default_ratios_in_range:
  "0 \<le> default_product_size_ratio" "default_product_size_ratio \<le> 2 ^ 24"
  "0 \<le> default_logo_size_ratio" "default_logo_size_ratio \<le> 2 ^ 24"
  by (simp_all add: default_product_size_ratio_val default_logo_size_ratio_val)

lemma round_double_half_1024: "round_double (1024 * (1 / 2)) = 512"
  by (simp add: round_double_numeral)

text \<open>
  C3, as the code has it. The sizes are made with \<open>int\<close>, which drops the fraction, not
  with \<open>round\<close>. For a background and a product with sides below \<open>2^24\<close> pixels and a
  ratio between 0 and \<open>2^24\<close>: the target height is the height of the background times the
  ratio, computed in doubles and cut to an integer, and the target width is that height times
  the aspect ratio of the product, computed in doubles and cut to an integer; when this
  width is more than \<open>9 * bg_width div 10\<close>, the width is \<open>9 * bg_width div 10\<close> and the
  height is this width over the aspect ratio, again cut to an integer. With the default
  ratio 0.4 the first target height is \<open>2 * bg_height div 5\<close>. A product of target size
  \<open>(tw, th)\<close> is placed at \<open>x = (bg_width - tw) div 2\<close> and
  \<open>y = bg_height - th - bg_height div 20\<close>.
\<close>

theorem product_size_and_position:
  assumes "small_side bg_width" "small_side bg_height"
    and "small_side (width product)" "small_side (height product)" "0 < height product"
    and "0 \<le> product_size_ratio" "product_size_ratio \<le> 2 ^ 24"
  shows "product_target bg_width bg_height product product_size_ratio =
     (let th0 = \<lfloor>round_double (of_int (int bg_height) * product_size_ratio)\<rfloor>;
          aspect = aspect_of (int (width product)) (int (height product));
          tw0 = \<lfloor>round_double (of_int th0 * aspect)\<rfloor>;
          cw = (9 * int bg_width) div 10
      in if tw0 > cw then Inr (cw, \<lfloor>round_double (of_int cw / aspect)\<rfloor>)
         else Inr (tw0, th0)) \<and>
   \<lfloor>round_double (of_int (int bg_height) * default_product_size_ratio)\<rfloor>
     = (2 * int bg_height) div 5 \<and>
   product_position bg_width bg_height (tw, th) =
     Inr ((int bg_width - tw) div 2, int bg_height - th - int bg_height div 20)"
proof -
  have Hi: "0 \<le> int bg_height" "int bg_height < 2 ^ 24"
    using small_side_int [OF assms(2)] by simp_all
  show ?thesis
    unfolding Let_def
    using product_target_ratio [OF assms] floor_default_product [OF Hi]
      product_position_default [OF assms(2)]
    by (intro conjI)
qed

text \<open>
  On a background of 1024 by 1024 pixels the square product is resized to 409 by 409
  pixels and placed at \<open>x = 307\<close>, \<open>y = 564\<close>; with a ratio of one half it is resized to
  512 by 512 pixels.
\<close>

theorem product_size_and_position_witness:
  "small_side 1024 \<and> small_side (width demo_product) \<and> small_side (height demo_product) \<and>
   0 < height demo_product \<and>
   0 \<le> default_product_size_ratio \<and> default_product_size_ratio \<le> 2 ^ 24 \<and>
   product_target 1024 1024 demo_product default_product_size_ratio = Inr (409, 409) \<and>
   product_position 1024 1024 (409, 409) = Inr (307, 564) \<and>
   product_target 1024 1024 demo_product (1 / 2) = Inr (512, 512)"
proof -
  have r: "round_double 409 = 409" "round_double 512 = 512"
    by (simp_all add: round_double_numeral)
  note inst = product_size_and_position [OF demo_small(1) demo_small(1) demo_small(2-4)
      default_ratios_in_range(1,2), of 409 409]
  from inst have t: "\<lfloor>round_double (of_int (int 1024) * default_product_size_ratio)\<rfloor> = 409"
    by simp
  from inst
  have "product_target 1024 1024 demo_product default_product_size_ratio = Inr (409, 409)"
    "product_position 1024 1024 (409, 409) = Inr (307, 564)"
    unfolding t by (simp_all add: Let_def demo_shapes aspect_of_def r)
  moreover
  from product_size_and_position [OF demo_small(1) demo_small(1) demo_small(2-4),
      of "1 / 2" 0 0]
  have "product_target 1024 1024 demo_product (1 / 2) = Inr (512, 512)"
    by (simp add: Let_def demo_shapes aspect_of_def r round_double_half_1024)
  ultimately show ?thesis using demo_small(1-4) default_ratios_in_range(1,2) by simp
qed

text \<open>
  The sizes of the scenario are not 410 by 410 pixels at \<open>x = 307\<close>, \<open>y = 563\<close>.
\<close>

theorem product_size_and_position_counterexample:
  "product_target 1024 1024 demo_product default_product_size_ratio = Inr (409, 409) \<and>
   product_target 1024 1024 demo_product default_product_size_ratio \<noteq> Inr (410, 410) \<and>
   product_position 1024 1024 (409, 409) = Inr (307, 564) \<and>
   product_position 1024 1024 (409, 409) \<noteq> Inr (307, 563)"
  by (simp add: demo_product_target demo_product_position)

text \<open>
  C4, as the code has it. The sizes are made with \<open>int\<close>, which drops the fraction, not
  with \<open>round\<close>. For a background and a logo with sides below \<open>2^24\<close> pixels, a logo of
  positive width and height and a ratio between 0 and \<open>2^24\<close>: the target width is the
  width of the background times the ratio, computed in doubles and cut to an integer, and
  the target height is that width over the aspect ratio of the logo, computed in doubles
  and cut to an integer. With the default ratio 0.15 the target width is
  \<open>3 * bg_width div 20\<close>. A logo of target size \<open>(tw, th)\<close> is placed at
  \<open>x = bg_width - tw - margin\<close> and \<open>y = margin\<close>, where the margin is \<open>bg_width div 50\<close>.
\<close>

theorem logo_size_and_position:
  assumes "small_side bg_width"
    and "small_side (width logo)" "0 < width logo"
    and "small_side (height logo)" "0 < height logo"
    and "0 \<le> logo_size_ratio" "logo_size_ratio \<le> 2 ^ 24"
  shows "logo_target bg_width logo logo_size_ratio =
     (let tw0 = \<lfloor>round_double (of_int (int bg_width) * logo_size_ratio)\<rfloor>;
          aspect = aspect_of (int (width logo)) (int (height logo))
      in Inr (tw0, \<lfloor>round_double (of_int tw0 / aspect)\<rfloor>)) \<and>
   \<lfloor>round_double (of_int (int bg_width) * default_logo_size_ratio)\<rfloor>
     = (3 * int bg_width) div 20 \<and>
   logo_position bg_width (tw, th) =
     (let margin = int bg_width div 50 in Inr (int bg_width - tw - margin, margin))"
proof -
  have Wi: "0 \<le> int bg_width" "int bg_width < 2 ^ 24"
    using small_side_int [OF assms(1)] by simp_all
  show ?thesis
    unfolding Let_def
    using logo_target_ratio [OF assms] floor_logo_ratio [OF Wi]
      logo_position_default [OF assms(1)]
    by (intro conjI)
qed

text \<open>
  On a background of 1024 pixels in width the logo of 200 by 100 pixels is resized to 153 by
  76 pixels and placed at \<open>x = 851\<close>, \<open>y = 20\<close>; with a ratio of one half it is resized to
  512 by 256 pixels.
\<close>

theorem logo_size_and_position_witness:
  "small_side 1024 \<and> small_side (width demo_logo) \<and> 0 < width demo_logo \<and>
   small_side (height demo_logo) \<and> 0 < height demo_logo \<and>
   0 \<le> default_logo_size_ratio \<and> default_logo_size_ratio \<le> 2 ^ 24 \<and>
   logo_target 1024 demo_logo default_logo_size_ratio = Inr (153, 76) \<and>
   logo_position 1024 (153, 76) = Inr (851, 20) \<and>
   logo_target 1024 demo_logo (1 / 2) = Inr (512, 256)"
proof -
  have r: "round_double 2 = 2" "round_double 256 = 256" "round_double 512 = 512"
    by (simp_all add: round_double_numeral)
  note inst = logo_size_and_position [OF demo_small(1) demo_small(5-8)
      default_ratios_in_range(3,4), of 153 76]
  from inst have t: "\<lfloor>round_double (of_int (int 1024) * default_logo_size_ratio)\<rfloor> = 153"
    by simp
  from inst
  have "logo_target 1024 demo_logo default_logo_size_ratio = Inr (153, 76)"
    "logo_position 1024 (153, 76) = Inr (851, 20)"
    unfolding t by (simp_all add: Let_def demo_shapes aspect_of_def r demo_logo_height)
  moreover
  from logo_size_and_position [OF demo_small(1) demo_small(5-8), of "1 / 2" 0 0]
  have "logo_target 1024 demo_logo (1 / 2) = Inr (512, 256)"
    by (simp add: Let_def demo_shapes aspect_of_def r round_double_half_1024)
  ultimately show ?thesis using demo_small(1,5-8) default_ratios_in_range(3,4) by simp
qed

text \<open>
  The sizes of the scenario are not 154 by 77 pixels at \<open>x = 850\<close>, \<open>y = 20\<close>.
\<close>

theorem logo_size_and_position_counterexample:
  "logo_target 1024 demo_logo default_logo_size_ratio = Inr (153, 76) \<and>
   logo_target 1024 demo_logo default_logo_size_ratio \<noteq> Inr (154, 77) \<and>
   logo_position 1024 (153, 76) = Inr (851, 20) \<and>
   logo_position 1024 (153, 76) \<noteq> Inr (850, 20)"
  by (simp add: demo_logo_target demo_logo_position)

section \<open>Aspect ratios\<close>




end
